theory Spec2Isabelle
  imports Main
begin

section \<open>Data model\<close>

text \<open>
  Identifiers (user ids, conversation ids, message ids) are strings: the handlers compare
  them after \<^verbatim>\<open>String(...)\<close> and build room names from them by concatenation.
  A connection is identified by the number of its socket.
\<close>

text \<open>
  \<^verbatim>\<open>conversationSchema\<close>: \<^verbatim>\<open>participants\<close> is an array of user ids of any length,
  \<^verbatim>\<open>lastMessage\<close> is optional. The timestamps of a conversation are never read by the
  code and are left out.
\<close>

record conversation =
  conv_id :: string
  participants :: "string list"
  lastMessage :: "string option"

text \<open>
  \<^verbatim>\<open>messageSchema\<close>. \<^verbatim>\<open>createdAt\<close> is read by the notification; \<^verbatim>\<open>updatedAt\<close>,
  kept by the store and never read, is left out.
\<close>

record message =
  msg_id :: string
  conversationId :: string
  sender :: string
  receiver :: string
  content :: string
  seen :: bool
  createdAt :: nat

text \<open>The requests the code sends to the store, with their arguments.\<close>

datatype dbcall =
    ConversationFindOne "string list"
  | ConversationCreate "string list"
  | ConversationFindById string
  | ConversationFindByIdAndUpdate string string
  | MessageCreate string string string string
  | MessageUpdateMany "string list" string

text \<open>Server-to-client events, named as on the wire, with their payload fields in order.\<close>

datatype event =
    JoinError string
  | JoinedConversation string
  | ReceiveMessage message "string option"
  | NewMessageNotification string string string string nat
  | MessageSeen string "string list" string

text \<open>
  The argument of the acknowledgment callback: \<^verbatim>\<open>{ok: true, message: out}\<close>, where
  \<^verbatim>\<open>out\<close> is the message with \<^verbatim>\<open>localId\<close> attached, or \<^verbatim>\<open>{ok: false, error}\<close>.
\<close>

datatype ack_reply =
    AckOk message "string option"
  | AckFail string

datatype logged =
    LoggedId "string option"
  | LoggedIds "string list option"

text \<open>
  Everything a handler does that is visible outside it, in the order it does it.
  \<open>ToRoom room members ev\<close> is \<^verbatim>\<open>io.to(room).emit(ev)\<close>, with the sockets that are
  in the room at that moment.
\<close>

datatype effect =
    DbCall dbcall
  | Emit nat event
  | ToRoom string "nat list" event
  | Ack nat ack_reply
  | ConsoleLog string logged
  | ConsoleError string string
  | ConnectError nat string
  | Disconnect nat

text \<open>
  The libraries the code calls, as parameters: \<^verbatim>\<open>cookie.parse\<close>; \<^verbatim>\<open>jwt.verify\<close>
  with the configured secret (\<open>None\<close> when it throws, otherwise the \<^verbatim>\<open>_id\<close> of the decoded
  payload, which may be missing); \<^verbatim>\<open>mongoose.isValidObjectId\<close>; the identifier the store
  gives to its n-th new document; and the error, if any, with which the store rejects a
  request.
\<close>

record env =
  cookie_parse :: "string \<Rightarrow> (string \<times> string) list"
  jwt_verify :: "string \<Rightarrow> string option option"
  isValidObjectId :: "string \<Rightarrow> bool"
  gen_id :: "nat \<Rightarrow> string"
  db_fault :: "dbcall \<Rightarrow> string option"

text \<open>
  The state: the two collections of the store with its document counter and the time of
  its clock, the connections whose handlers are registered (with their \<^verbatim>\<open>userId\<close>), the
  room memberships, and the effects so far.
\<close>

record world =
  conversations :: "conversation list"
  messages :: "message list"
  next_id :: nat
  clock :: nat
  sessions :: "nat \<rightharpoonup> string"
  rooms :: "(nat \<times> string) list"
  trace :: "effect list"

section \<open>Sockets and rooms\<close>

definition log_effect :: "effect \<Rightarrow> world \<Rightarrow> world" where
  "log_effect e w = w\<lparr>trace := trace w @ [e]\<rparr>"

definition members :: "world \<Rightarrow> string \<Rightarrow> nat list" where
  "members w room = map fst (filter (\<lambda>m. snd m = room) (rooms w))"

definition socket_join :: "nat \<Rightarrow> string \<Rightarrow> world \<Rightarrow> world" where
  "socket_join socket room w =
     (if (socket, room) \<in> set (rooms w) then w
      else w\<lparr>rooms := rooms w @ [(socket, room)]\<rparr>)"

definition socket_emit :: "nat \<Rightarrow> event \<Rightarrow> world \<Rightarrow> world" where
  "socket_emit socket ev w = log_effect (Emit socket ev) w"

definition io_to_emit :: "string \<Rightarrow> event \<Rightarrow> world \<Rightarrow> world" where
  "io_to_emit room ev w = log_effect (ToRoom room (members w room) ev) w"

text \<open>JavaScript's \<^verbatim>\<open>!v\<close> on a value that is a string or missing.\<close>

definition falsy :: "string option \<Rightarrow> bool" where
  "falsy v = (case v of None \<Rightarrow> True | Some s \<Rightarrow> s = [])"

definition str_value :: "string option \<Rightarrow> string" where
  "str_value v = (case v of None \<Rightarrow> [] | Some s \<Rightarrow> s)"

section \<open>The store\<close>

text \<open>
  Each request is recorded, then either rejected with the store's error (the awaited
  promise rejects) or carried out on the collections.
\<close>

definition Conversation_findOne ::
  "env \<Rightarrow> string list \<Rightarrow> world \<Rightarrow> (string + conversation option) \<times> world" where
  "Conversation_findOne env all w =
     (let w1 = log_effect (DbCall (ConversationFindOne all)) w in
      case db_fault env (ConversationFindOne all) of
        Some err \<Rightarrow> (Inl err, w1)
      | None \<Rightarrow>
          (Inr (find (\<lambda>c. \<forall>u \<in> set all. u \<in> set (participants c)) (conversations w1)), w1))"

definition Conversation_create ::
  "env \<Rightarrow> string list \<Rightarrow> world \<Rightarrow> (string + conversation) \<times> world" where
  "Conversation_create env ps w =
     (let w1 = log_effect (DbCall (ConversationCreate ps)) w in
      case db_fault env (ConversationCreate ps) of
        Some err \<Rightarrow> (Inl err, w1)
      | None \<Rightarrow>
          (let c = \<lparr>conv_id = gen_id env (next_id w1), participants = ps, lastMessage = None\<rparr>
           in (Inr c, w1\<lparr>conversations := conversations w1 @ [c], next_id := Suc (next_id w1)\<rparr>)))"

definition Conversation_findById ::
  "env \<Rightarrow> string \<Rightarrow> world \<Rightarrow> (string + conversation option) \<times> world" where
  "Conversation_findById env cid w =
     (let w1 = log_effect (DbCall (ConversationFindById cid)) w in
      case db_fault env (ConversationFindById cid) of
        Some err \<Rightarrow> (Inl err, w1)
      | None \<Rightarrow> (Inr (find (\<lambda>c. conv_id c = cid) (conversations w1)), w1))"

fun update_first :: "('a \<Rightarrow> bool) \<Rightarrow> ('a \<Rightarrow> 'a) \<Rightarrow> 'a list \<Rightarrow> 'a list" where
  "update_first P f [] = []"
| "update_first P f (x # xs) = (if P x then f x # xs else x # update_first P f xs)"

definition Conversation_findByIdAndUpdate ::
  "env \<Rightarrow> string \<Rightarrow> string \<Rightarrow> world \<Rightarrow> (string + unit) \<times> world" where
  "Conversation_findByIdAndUpdate env cid mid w =
     (let w1 = log_effect (DbCall (ConversationFindByIdAndUpdate cid mid)) w in
      case db_fault env (ConversationFindByIdAndUpdate cid mid) of
        Some err \<Rightarrow> (Inl err, w1)
      | None \<Rightarrow>
          (Inr (), w1\<lparr>conversations :=
             update_first (\<lambda>c. conv_id c = cid) (\<lambda>c. c\<lparr>lastMessage := Some mid\<rparr>)
               (conversations w1)\<rparr>))"

definition Message_create ::
  "env \<Rightarrow> string \<Rightarrow> string \<Rightarrow> string \<Rightarrow> string \<Rightarrow> world \<Rightarrow> (string + message) \<times> world" where
  "Message_create env cid sid rid body w =
     (let w1 = log_effect (DbCall (MessageCreate cid sid rid body)) w in
      case db_fault env (MessageCreate cid sid rid body) of
        Some err \<Rightarrow> (Inl err, w1)
      | None \<Rightarrow>
          (let m = \<lparr>msg_id = gen_id env (next_id w1), conversationId = cid, sender = sid,
                    receiver = rid, content = body, seen = False, createdAt = clock w1\<rparr>
           in (Inr m, w1\<lparr>messages := messages w1 @ [m], next_id := Suc (next_id w1)\<rparr>)))"

definition mark_seen :: "string list \<Rightarrow> string \<Rightarrow> message \<Rightarrow> message" where
  "mark_seen ids cid m =
     (if msg_id m \<in> set ids \<and> conversationId m = cid then m\<lparr>seen := True\<rparr> else m)"

definition Message_updateMany ::
  "env \<Rightarrow> string list \<Rightarrow> string \<Rightarrow> world \<Rightarrow> (string + unit) \<times> world" where
  "Message_updateMany env ids cid w =
     (let w1 = log_effect (DbCall (MessageUpdateMany ids cid)) w in
      case db_fault env (MessageUpdateMany ids cid) of
        Some err \<Rightarrow> (Inl err, w1)
      | None \<Rightarrow> (Inr (), w1\<lparr>messages := map (mark_seen ids cid) (messages w1)\<rparr>))"

section \<open>lib/conversation.ts\<close>

definition getOrCreateConversation ::
  "env \<Rightarrow> string \<Rightarrow> string \<Rightarrow> world \<Rightarrow> (string + conversation) \<times> world" where
  "getOrCreateConversation env userId1 userId2 w =
     (case Conversation_findOne env [userId1, userId2] w of
        (Inl err, w1) \<Rightarrow> (Inl err, w1)
      | (Inr (Some conversation), w1) \<Rightarrow> (Inr conversation, w1)
      | (Inr None, w1) \<Rightarrow> Conversation_create env [userId1, userId2] w1)"

definition addMessage ::
  "env \<Rightarrow> string \<Rightarrow> string \<Rightarrow> string \<Rightarrow> string \<Rightarrow> world \<Rightarrow> (string + message) \<times> world" where
  "addMessage env cid senderId receiverId body w =
     (case Message_create env cid senderId receiverId body w of
        (Inl err, w1) \<Rightarrow> (Inl err, w1)
      | (Inr message, w1) \<Rightarrow>
          (case Conversation_findByIdAndUpdate env cid (msg_id message) w1 of
             (Inl err, w2) \<Rightarrow> (Inl err, w2)
           | (Inr u, w2) \<Rightarrow> (Inr message, w2)))"

section \<open>The handshake\<close>

definition io_use :: "env \<Rightarrow> string option \<Rightarrow> string + string option" where
  "io_use env cookie_header =
     (let cookies = cookie_parse env (str_value cookie_header);
          accessToken = str_value (map_of cookies ''accessToken'')
      in if accessToken = [] then Inl ''Unauthorized''
         else (case jwt_verify env accessToken of
                 None \<Rightarrow> Inl ''Forbidden''
               | Some decoded_id \<Rightarrow> Inr decoded_id))"

text \<open>
  A connection attempt: the middleware, and when it passes, the \<^verbatim>\<open>connection\<close> handler,
  which joins the user's own room and registers the three handlers.
\<close>

definition connection :: "env \<Rightarrow> nat \<Rightarrow> string option \<Rightarrow> world \<Rightarrow> world" where
  "connection env socket cookie_header w =
     (case io_use env cookie_header of
        Inl err \<Rightarrow> log_effect (ConnectError socket err) w
      | Inr userId \<Rightarrow>
          if falsy userId then log_effect (Disconnect socket) w
          else (socket_join socket (''user:'' @ str_value userId) w)
                 \<lparr>sessions := (sessions w)(socket \<mapsto> str_value userId)\<rparr>)"

section \<open>The handlers\<close>

record join_payload =
  j_conversationId :: "string option"
  j_otherUserId :: "string option"

record send_payload =
  s_conversationId :: "string option"
  s_content :: "string option"
  s_localId :: "string option"

record read_payload =
  r_conversationId :: "string option"
  r_messageIds :: "string list option"

definition join_conversation_catch :: "nat \<Rightarrow> string \<Rightarrow> world \<Rightarrow> world" where
  "join_conversation_catch socket err w =
     socket_emit socket (JoinError ''Failed to join conversation'')
       (log_effect (ConsoleError ''join_conversation err'' err) w)"

definition join_conversation_joined :: "nat \<Rightarrow> string \<Rightarrow> world \<Rightarrow> world" where
  "join_conversation_joined socket cid w =
     socket_emit socket (JoinedConversation cid)
       (socket_join socket (''conversation:'' @ cid) w)"

definition join_conversation ::
  "env \<Rightarrow> nat \<Rightarrow> string \<Rightarrow> join_payload option \<Rightarrow> world \<Rightarrow> world" where
  "join_conversation env socket userId payload w =
     (let conversationId = (case payload of None \<Rightarrow> None | Some p \<Rightarrow> j_conversationId p);
          otherUserId = (case payload of None \<Rightarrow> None | Some p \<Rightarrow> j_otherUserId p)
      in if falsy conversationId then
           (if falsy otherUserId then
              socket_emit socket (JoinError ''otherUserId required if no conversationId'') w
            else
              (case getOrCreateConversation env userId (str_value otherUserId) w of
                 (Inl err, w1) \<Rightarrow> join_conversation_catch socket err w1
               | (Inr conv, w1) \<Rightarrow> join_conversation_joined socket (conv_id conv) w1))
         else
           (case Conversation_findById env (str_value conversationId) w of
              (Inl err, w1) \<Rightarrow> join_conversation_catch socket err w1
            | (Inr None, w1) \<Rightarrow>
                socket_emit socket (JoinError ''Not authorized to join conversation'') w1
            | (Inr (Some conv), w1) \<Rightarrow>
                if userId \<notin> set (participants conv) then
                  socket_emit socket (JoinError ''Not authorized to join conversation'') w1
                else join_conversation_joined socket (str_value conversationId) w1))"

definition send_ack :: "bool \<Rightarrow> nat \<Rightarrow> ack_reply \<Rightarrow> world \<Rightarrow> world" where
  "send_ack ack socket res w = (if ack then log_effect (Ack socket res) w else w)"

definition send_message_catch :: "bool \<Rightarrow> nat \<Rightarrow> string \<Rightarrow> world \<Rightarrow> world" where
  "send_message_catch ack socket err w =
     send_ack ack socket (AckFail err) (log_effect (ConsoleError ''send_message error'' err) w)"

definition send_message ::
  "env \<Rightarrow> nat \<Rightarrow> string \<Rightarrow> send_payload option \<Rightarrow> bool \<Rightarrow> world \<Rightarrow> world" where
  "send_message env socket userId payload ack w =
     (let conversationId = (case payload of None \<Rightarrow> None | Some p \<Rightarrow> s_conversationId p);
          body = (case payload of None \<Rightarrow> None | Some p \<Rightarrow> s_content p);
          localId = (case payload of None \<Rightarrow> None | Some p \<Rightarrow> s_localId p)
      in if falsy conversationId \<or> falsy body then
           send_ack ack socket (AckFail ''Invalid payload'') w
         else
           (case Conversation_findById env (str_value conversationId) w of
              (Inl err, w1) \<Rightarrow> send_message_catch ack socket err w1
            | (Inr None, w1) \<Rightarrow> send_ack ack socket (AckFail ''Not a participant'') w1
            | (Inr (Some conv), w1) \<Rightarrow>
                if userId \<notin> set (participants conv) then
                  send_ack ack socket (AckFail ''Not a participant'') w1
                else
                  (let other = find (\<lambda>p. p \<noteq> userId) (participants conv) in
                   if falsy other then
                     send_ack ack socket (AckFail ''No other participant'') w1
                   else
                     (case addMessage env (conv_id conv) userId (str_value other)
                             (str_value body) w1 of
                        (Inl err, w2) \<Rightarrow> send_message_catch ack socket err w2
                      | (Inr message, w2) \<Rightarrow>
                          send_ack ack socket (AckOk message localId)
                            (io_to_emit (''user:'' @ str_value other)
                               (NewMessageNotification (str_value conversationId) userId
                                  (msg_id message) (take 120 (content message))
                                  (createdAt message))
                               (io_to_emit (''conversation:'' @ str_value conversationId)
                                  (ReceiveMessage message localId) w2))))))"

definition message_read_catch :: "string \<Rightarrow> world \<Rightarrow> world" where
  "message_read_catch err w = log_effect (ConsoleError ''message_read err'' err) w"

text \<open>
  A missing payload makes the destructuring throw a \<^verbatim>\<open>TypeError\<close>, which the handler's
  own \<^verbatim>\<open>catch\<close> logs.
\<close>

definition message_read ::
  "env \<Rightarrow> nat \<Rightarrow> string \<Rightarrow> read_payload option \<Rightarrow> world \<Rightarrow> world" where
  "message_read env socket userId payload w =
     (case payload of
        None \<Rightarrow> message_read_catch ''TypeError'' w
      | Some p \<Rightarrow>
          (let conversationId = r_conversationId p;
               messageIds = r_messageIds p;
               w0 = log_effect (ConsoleLog ''conversationId--->'' (LoggedId conversationId)) w
           in if falsy conversationId \<or> messageIds = None \<or> messageIds = Some [] then w0
              else
                (case Conversation_findById env (str_value conversationId) w0 of
                   (Inl err, w1) \<Rightarrow> message_read_catch err w1
                 | (Inr conv, w1) \<Rightarrow>
                     (let w2 = log_effect (ConsoleLog ''message ids--->'' (LoggedIds messageIds)) w1
                      in if (case conv of None \<Rightarrow> True
                                | Some c \<Rightarrow> userId \<notin> set (participants c)) then w2
                         else
                           (let validIds = filter (isValidObjectId env) (the messageIds) in
                            case (if validIds \<noteq> [] then
                                    Message_updateMany env (the messageIds)
                                      (str_value conversationId) w2
                                  else (Inr (), w2)) of
                              (Inl err, w3) \<Rightarrow> message_read_catch err w3
                            | (Inr u, w3) \<Rightarrow>
                                io_to_emit (''conversation:'' @ str_value conversationId)
                                  (MessageSeen (str_value conversationId) (the messageIds) userId)
                                  w3)))))"

section \<open>The server as a transition system\<close>

datatype client_event =
    JoinConversation "join_payload option"
  | SendMessage "send_payload option" bool
  | MessageRead "read_payload option"

text \<open>
  An event from a socket runs the handler registered for it; a socket whose
  \<^verbatim>\<open>connection\<close> handler never registered any has none to run.
\<close>

definition client_emit :: "env \<Rightarrow> nat \<Rightarrow> client_event \<Rightarrow> world \<Rightarrow> world" where
  "client_emit env socket ev w =
     (case sessions w socket of
        None \<Rightarrow> w
      | Some userId \<Rightarrow>
          (case ev of
             JoinConversation payload \<Rightarrow> join_conversation env socket userId payload w
           | SendMessage payload ack \<Rightarrow> send_message env socket userId payload ack w
           | MessageRead payload \<Rightarrow> message_read env socket userId payload w))"

datatype step =
    Connect nat "string option"
  | Client nat client_event

fun server_step :: "env \<Rightarrow> world \<Rightarrow> step \<Rightarrow> world" where
  "server_step env w (Connect socket cookie_header) = connection env socket cookie_header w"
| "server_step env w (Client socket ev) = client_emit env socket ev w"

definition run :: "env \<Rightarrow> step list \<Rightarrow> world \<Rightarrow> world" where
  "run env steps w = foldl (server_step env) w steps"

text \<open>The effects added between an earlier state and a later one.\<close>

definition new_effects :: "world \<Rightarrow> world \<Rightarrow> effect list" where
  "new_effects w w' = drop (length (trace w)) (trace w')"

section \<open>Vocabulary of the properties\<close>

definition is_ack :: "effect \<Rightarrow> bool" where
  "is_ack e = (case e of Ack s r \<Rightarrow> True | _ \<Rightarrow> False)"

text \<open>Effects that reach no client: requests to the store and lines on the server's console.\<close>

definition is_internal :: "effect \<Rightarrow> bool" where
  "is_internal e = (case e of DbCall c \<Rightarrow> True | ConsoleError l err \<Rightarrow> True | _ \<Rightarrow> False)"

text \<open>The effects that leave the server for some client, in order.\<close>

definition client_effects :: "effect list \<Rightarrow> effect list" where
  "client_effects es = filter (\<lambda>e. \<not> is_internal e) es"

text \<open>The fields of a \<^verbatim>\<open>send_message\<close> payload as the handler reads them.\<close>

definition send_cid :: "send_payload option \<Rightarrow> string" where
  "send_cid payload = str_value (case payload of None \<Rightarrow> None | Some p \<Rightarrow> s_conversationId p)"

definition send_body :: "send_payload option \<Rightarrow> string" where
  "send_body payload = str_value (case payload of None \<Rightarrow> None | Some p \<Rightarrow> s_content p)"

definition send_localId :: "send_payload option \<Rightarrow> string option" where
  "send_localId payload = (case payload of None \<Rightarrow> None | Some p \<Rightarrow> s_localId p)"

text \<open>The conversations whose participants are exactly the two users.\<close>

definition conversations_between :: "string \<Rightarrow> string \<Rightarrow> world \<Rightarrow> conversation list" where
  "conversations_between a b w = filter (\<lambda>c. set (participants c) = {a, b}) (conversations w)"

text \<open>
  The conversations of a store that only \<^verbatim>\<open>getOrCreateConversation\<close> has filled: two
  participants each, and no two with the same participants.
\<close>

definition conversations_wf :: "world \<Rightarrow> bool" where
  "conversations_wf w \<longleftrightarrow>
     list_all (\<lambda>c. length (participants c) = 2) (conversations w) \<and>
     distinct (map (\<lambda>c. set (participants c)) (conversations w))"

text \<open>Calls of \<^verbatim>\<open>getOrCreateConversation\<close> one after the other; the ids they return.\<close>

fun resolve_all :: "env \<Rightarrow> (string \<times> string) list \<Rightarrow> world \<Rightarrow> (string + string list) \<times> world" where
  "resolve_all env [] w = (Inr [], w)"
| "resolve_all env ((a, b) # calls) w =
     (case getOrCreateConversation env a b w of
        (Inl err, w1) \<Rightarrow> (Inl err, w1)
      | (Inr c, w1) \<Rightarrow>
          (case resolve_all env calls w1 of
             (Inl err, w2) \<Rightarrow> (Inl err, w2)
           | (Inr ids, w2) \<Rightarrow> (Inr (conv_id c # ids), w2)))"

text \<open>The sockets that a protocol event of this effect is delivered to.\<close>

definition recipients :: "effect \<Rightarrow> nat list" where
  "recipients e = (case e of Emit s ev \<Rightarrow> [s] | Ack s r \<Rightarrow> [s] | ToRoom room ms ev \<Rightarrow> ms | _ \<Rightarrow> [])"

definition sockets_in_rooms :: "world \<Rightarrow> nat set" where
  "sockets_in_rooms w = fst ` set (rooms w)"

text \<open>
  What a handler run for socket \<open>s\<close> may do: add effects that reach only \<open>s\<close> and sockets
  already in some room, put only \<open>s\<close> into rooms, leave the sessions of other sockets
  alone, and keep the conversations well formed.
\<close>

definition handled_by :: "nat \<Rightarrow> world \<Rightarrow> world \<Rightarrow> bool" where
  "handled_by s w w' \<longleftrightarrow>
     (\<exists>es. trace w' = trace w @ es \<and>
           (\<forall>e \<in> set es. set (recipients e) \<subseteq> insert s (sockets_in_rooms w))) \<and>
     sockets_in_rooms w' \<subseteq> insert s (sockets_in_rooms w) \<and>
     (\<forall>c. c \<noteq> s \<longrightarrow> sessions w' c = sessions w c) \<and>
     (conversations_wf w \<longrightarrow> conversations_wf w')"

text \<open>The fields of a \<^verbatim>\<open>join_conversation\<close> payload as the handler reads them.\<close>

definition join_cid :: "join_payload option \<Rightarrow> string option" where
  "join_cid payload = (case payload of None \<Rightarrow> None | Some p \<Rightarrow> j_conversationId p)"

definition join_other :: "join_payload option \<Rightarrow> string option" where
  "join_other payload = (case payload of None \<Rightarrow> None | Some p \<Rightarrow> j_otherUserId p)"

text \<open>The socket that a step comes from.\<close>

fun socket_of :: "step \<Rightarrow> nat" where
  "socket_of (Connect socket cookie_header) = socket"
| "socket_of (Client socket ev) = socket"

text \<open>A message stays as it is or goes from unseen to seen.\<close>

definition seen_step :: "message \<Rightarrow> message \<Rightarrow> bool" where
  "seen_step m m' \<longleftrightarrow> m' = m \<or> (\<not> seen m \<and> m' = m\<lparr>seen := True\<rparr>)"

text \<open>The collection keeps its messages in place, each by \<open>seen_step\<close>, and may grow.\<close>

definition messages_evolve :: "message list \<Rightarrow> message list \<Rightarrow> bool" where
  "messages_evolve ms ms' \<longleftrightarrow>
     length ms \<le> length ms' \<and> list_all2 seen_step ms (take (length ms) ms')"

definition unseen :: "message \<Rightarrow> bool" where
  "unseen m = (\<not> seen m)"

text \<open>The token that the middleware reads from the handshake.\<close>

definition access_token :: "env \<Rightarrow> string option \<Rightarrow> string" where
  "access_token env cookie_header =
     str_value (map_of (cookie_parse env (str_value cookie_header)) ''accessToken'')"

section \<open>Concrete inputs\<close>

text \<open>
  A test double for the libraries: the cookie header is the token itself, two tokens
  verify, identifiers of three characters are well formed, and the store rejects nothing.
\<close>

definition env0 :: env where
  "env0 = \<lparr>cookie_parse = (\<lambda>h. if h = [] then [] else [(''accessToken'', h)]),
           jwt_verify = (\<lambda>t. if t = ''alice-token'' then Some (Some ''alice'')
                               else if t = ''anonymous-token'' then Some None else None),
           isValidObjectId = (\<lambda>s. length s = 3),
           gen_id = (\<lambda>n. ''id'' @ replicate n CHR ''x''),
           db_fault = (\<lambda>c. None)\<rparr>"

text \<open>The same, with a store that rejects every request.\<close>

definition env_down :: env where
  "env_down = env0\<lparr>db_fault := (\<lambda>c. Some ''store down'')\<rparr>"

definition w_init :: world where
  "w_init = \<lparr>conversations = [], messages = [], next_id = 0, clock = 0,
             sessions = Map.empty, rooms = [], trace = []\<rparr>"

text \<open>
  Alice (socket 1) and Bob (socket 2) are connected and share the conversation
  \<open>alice_bob\<close>; only Bob has joined its room.
\<close>

definition alice_bob :: conversation where
  "alice_bob = \<lparr>conv_id = ''c1'', participants = [''alice'', ''bob''], lastMessage = None\<rparr>"

definition w0 :: world where
  "w0 = \<lparr>conversations = [alice_bob], messages = [], next_id = 1, clock = 7,
         sessions = [1 \<mapsto> ''alice'', 2 \<mapsto> ''bob''],
         rooms = [(1, ''user:alice''), (2, ''user:bob''), (2, ''conversation:c1'')],
         trace = []\<rparr>"

definition hi :: send_payload where
  "hi = \<lparr>s_conversationId = Some ''c1'', s_content = Some ''hi'', s_localId = Some ''x1''\<rparr>"

definition hi_message :: message where
  "hi_message = \<lparr>msg_id = ''idx'', conversationId = ''c1'', sender = ''alice'',
                  receiver = ''bob'', content = ''hi'', seen = False, createdAt = 7\<rparr>"

definition no_content :: send_payload where
  "no_content = \<lparr>s_conversationId = Some ''c1'', s_content = Some [], s_localId = None\<rparr>"

definition stranger_join :: join_payload where
  "stranger_join = \<lparr>j_conversationId = Some ''c1'', j_otherUserId = None\<rparr>"

definition empty_join :: join_payload where
  "empty_join = \<lparr>j_conversationId = None, j_otherUserId = Some []\<rparr>"

definition join_bob :: join_payload where
  "join_bob = \<lparr>j_conversationId = None, j_otherUserId = Some ''bob''\<rparr>"

definition unread_message :: message where
  "unread_message = \<lparr>msg_id = ''m01'', conversationId = ''c1'', sender = ''alice'', receiver = ''bob'',
          content = ''hi'', seen = False, createdAt = 3\<rparr>"

definition w_unread :: world where
  "w_unread = w0\<lparr>messages := [unread_message]\<rparr>"

definition read_two :: read_payload where
  "read_two = \<lparr>r_conversationId = Some ''c1'', r_messageIds = Some [''not-an-id'', ''m01'']\<rparr>"

definition read_m01 :: read_payload where
  "read_m01 = \<lparr>r_conversationId = Some ''c1'', r_messageIds = Some [''m01'']\<rparr>"

text \<open>An empty store after Alice has resolved her conversation with Bob.\<close>

definition first_contact :: world where
  "first_contact = snd (resolve_all env0 [(''alice'', ''bob'')] w_init)"

text \<open>Socket 3 sends events although its handshake was rejected; socket 1 sends a message.\<close>

definition intruder_steps :: "step list" where
  "intruder_steps = [Client 3 (JoinConversation (Some stranger_join)),
                     Client 1 (SendMessage (Some hi) True),
                     Client 3 (SendMessage (Some hi) True)]"

section \<open>Auxiliary facts\<close>

lemmas send_defs = send_message_def send_ack_def send_message_catch_def addMessage_def
  Message_create_def Conversation_findByIdAndUpdate_def Conversation_findById_def
  io_to_emit_def log_effect_def falsy_def str_value_def new_effects_def Let_def

lemma find_id: "find (\<lambda>c. conv_id c = cid) cs = Some conv \<Longrightarrow> conv_id conv = cid"
  by (auto simp: find_Some_iff)

lemma log_effect_inject: "log_effect e w = log_effect e' w' \<Longrightarrow> e = e'"
  by (auto simp: log_effect_def dest!: arg_cong [where f = trace])

lemma addMessage_trace:
  "addMessage env cid s r b w = (res, w1) \<Longrightarrow>
     \<exists>es. trace w1 = trace w @ es \<and> list_all is_internal es \<and> filter is_ack es = []"
  by (auto simp: addMessage_def Message_create_def Conversation_findByIdAndUpdate_def
        log_effect_def Let_def is_internal_def is_ack_def split: option.splits)

text \<open>The six ways through \<^verbatim>\<open>send_message\<close>, whatever the acknowledgment callback.\<close>

lemma send_message_cases [case_names invalid lookup_failed not_participant no_other
    persist_failed sent]:
  fixes env socket userId payload w
  defines "w1 \<equiv> log_effect (DbCall (ConversationFindById (send_cid payload))) w"
  obtains
    (invalid) "\<And>ack. send_message env socket userId payload ack w =
                 send_ack ack socket (AckFail ''Invalid payload'') w"
  | (lookup_failed) err where
      "\<And>ack. send_message env socket userId payload ack w = send_message_catch ack socket err w1"
      "db_fault env (ConversationFindById (send_cid payload)) = Some err"
  | (not_participant)
      "\<And>ack. send_message env socket userId payload ack w =
                 send_ack ack socket (AckFail ''Not a participant'') w1"
      "db_fault env (ConversationFindById (send_cid payload)) = None"
  | (no_other)
      "\<And>ack. send_message env socket userId payload ack w =
                 send_ack ack socket (AckFail ''No other participant'') w1"
      "db_fault env (ConversationFindById (send_cid payload)) = None"
  | (persist_failed) conv :: conversation and other err w2 where
      "addMessage env (conv_id conv) userId other (send_body payload) w1 = (Inl err, w2)"
      "\<And>ack. send_message env socket userId payload ack w = send_message_catch ack socket err w2"
      "db_fault env (ConversationFindById (send_cid payload)) = None"
  | (sent) conv :: conversation and other m w2 where
      "addMessage env (conv_id conv) userId other (send_body payload) w1 = (Inr m, w2)"
      "\<And>ack. send_message env socket userId payload ack w =
         send_ack ack socket (AckOk m (send_localId payload))
           (io_to_emit (''user:'' @ other)
              (NewMessageNotification (send_cid payload) userId (msg_id m)
                 (take 120 (content m)) (createdAt m))
              (io_to_emit (''conversation:'' @ send_cid payload)
                 (ReceiveMessage m (send_localId payload)) w2))"
      "db_fault env (ConversationFindById (send_cid payload)) = None"
proof -
  let ?cid = "case payload of None \<Rightarrow> None | Some p \<Rightarrow> s_conversationId p"
  let ?body = "case payload of None \<Rightarrow> None | Some p \<Rightarrow> s_content p"
  let ?lookup = "ConversationFindById (send_cid payload)"
  show thesis
  proof (cases "falsy ?cid \<or> falsy ?body")
    case True
    then have "\<And>ack. send_message env socket userId payload ack w =
                 send_ack ack socket (AckFail ''Invalid payload'') w"
      by (simp add: send_message_def Let_def)
    then show thesis by (rule invalid)
  next
    case valid: False
    show thesis
    proof (cases "db_fault env ?lookup")
      case (Some err)
      with valid have "\<And>ack. send_message env socket userId payload ack w =
                           send_message_catch ack socket err w1"
        by (simp add: send_message_def Let_def send_cid_def Conversation_findById_def w1_def)
      then show thesis using Some by (rule lookup_failed)
    next
      case ok: None
      then have r: "Conversation_findById env (send_cid payload) w =
                      (Inr (find (\<lambda>c. conv_id c = send_cid payload) (conversations w)), w1)"
        by (simp add: Conversation_findById_def Let_def w1_def log_effect_def)
      show thesis
      proof (cases "find (\<lambda>c. conv_id c = send_cid payload) (conversations w)")
        case None
        with valid r have "\<And>ack. send_message env socket userId payload ack w =
                 send_ack ack socket (AckFail ''Not a participant'') w1"
          by (simp add: send_message_def Let_def send_cid_def)
        then show thesis using ok by (rule not_participant)
      next
        case (Some conv)
        show thesis
        proof (cases "userId \<in> set (participants conv)")
          case False
          with valid r Some have "\<And>ack. send_message env socket userId payload ack w =
                 send_ack ack socket (AckFail ''Not a participant'') w1"
            by (simp add: send_message_def Let_def send_cid_def)
          then show thesis using ok by (rule not_participant)
        next
          case part: True
          let ?other = "find (\<lambda>p. p \<noteq> userId) (participants conv)"
          show thesis
          proof (cases "falsy ?other")
            case True
            with valid r Some part have "\<And>ack. send_message env socket userId payload ack w =
                 send_ack ack socket (AckFail ''No other participant'') w1"
              by (simp add: send_message_def Let_def send_cid_def)
            then show thesis using ok by (rule no_other)
          next
            case other: False
            obtain res w2 where
              add: "addMessage env (conv_id conv) userId (str_value ?other) (send_body payload) w1
                      = (res, w2)"
              by (cases "addMessage env (conv_id conv) userId (str_value ?other)
                           (send_body payload) w1")
            show thesis
            proof (cases res)
              case (Inl err)
              with add have a: "addMessage env (conv_id conv) userId (str_value ?other)
                                  (send_body payload) w1 = (Inl err, w2)"
                by simp
              with valid r Some part other
              have b: "\<And>ack. send_message env socket userId payload ack w =
                      send_message_catch ack socket err w2"
                by (simp add: send_message_def Let_def send_cid_def send_body_def)
              show thesis by (rule persist_failed [OF a _ ok]) (rule b)
            next
              case (Inr m)
              with add have a: "addMessage env (conv_id conv) userId (str_value ?other)
                                  (send_body payload) w1 = (Inr m, w2)"
                by simp
              with valid r Some part other
              have b: "\<And>ack. send_message env socket userId payload ack w =
                 send_ack ack socket (AckOk m (send_localId payload))
                   (io_to_emit (''user:'' @ str_value ?other)
                      (NewMessageNotification (send_cid payload) userId (msg_id m)
                         (take 120 (content m)) (createdAt m))
                      (io_to_emit (''conversation:'' @ send_cid payload)
                         (ReceiveMessage m (send_localId payload)) w2))"
                by (simp add: send_message_def Let_def send_cid_def send_body_def send_localId_def)
              show thesis by (rule sent [OF a _ ok]) (rule b)
            qed
          qed
        qed
      qed
    qed
  qed
qed


lemmas join_defs = join_conversation_def join_conversation_catch_def join_conversation_joined_def
  socket_emit_def socket_join_def getOrCreateConversation_def Conversation_findOne_def
  Conversation_create_def Conversation_findById_def log_effect_def falsy_def str_value_def
  new_effects_def Let_def

lemma log_effect_fields [simp]:
  "trace (log_effect e w) = trace w @ [e]"
  "conversations (log_effect e w) = conversations w"
  "messages (log_effect e w) = messages w"
  "rooms (log_effect e w) = rooms w"
  "sessions (log_effect e w) = sessions w"
  "next_id (log_effect e w) = next_id w"
  "clock (log_effect e w) = clock w"
  by (simp_all add: log_effect_def)

lemma socket_join_fields [simp]:
  "trace (socket_join s r w) = trace w"
  "conversations (socket_join s r w) = conversations w"
  "messages (socket_join s r w) = messages w"
  "set (rooms (socket_join s r w)) = insert (s, r) (set (rooms w))"
  "sessions (socket_join s r w) = sessions w"
  "next_id (socket_join s r w) = next_id w"
  "clock (socket_join s r w) = clock w"
  by (auto simp: socket_join_def)

lemma new_effects_append [simp]: "trace w' = trace w @ es \<Longrightarrow> new_effects w w' = es"
  by (simp add: new_effects_def)

lemma findById_result:
  "Conversation_findById env cid w =
     (case db_fault env (ConversationFindById cid) of
        Some err \<Rightarrow> Inl err
      | None \<Rightarrow> Inr (find (\<lambda>c. conv_id c = cid) (conversations w)),
      log_effect (DbCall (ConversationFindById cid)) w)"
  by (simp add: Conversation_findById_def Let_def split: option.split)

lemma getOrCreateConversation_result:
  "getOrCreateConversation env u1 u2 w = (Inr c, w1) \<Longrightarrow>
     c \<in> set (conversations w1) \<and> u1 \<in> set (participants c) \<and> u2 \<in> set (participants c)"
  by (auto simp: getOrCreateConversation_def Conversation_findOne_def Conversation_create_def
        Let_def find_Some_iff split: option.splits)

lemma getOrCreateConversation_frame:
  "getOrCreateConversation env u1 u2 w = (r, w1) \<Longrightarrow>
     rooms w1 = rooms w \<and> sessions w1 = sessions w \<and> messages w1 = messages w \<and>
     (\<exists>es. trace w1 = trace w @ es \<and> list_all is_internal es)"
  by (auto simp: getOrCreateConversation_def Conversation_findOne_def Conversation_create_def
        Let_def is_internal_def split: option.splits)

lemma find_update_first:
  "find (\<lambda>c. conv_id c = cid) (update_first (\<lambda>c. conv_id c = cid) (\<lambda>c. c\<lparr>lastMessage := v\<rparr>) cs)
     = map_option (\<lambda>c. c\<lparr>lastMessage := v\<rparr>) (find (\<lambda>c. conv_id c = cid) cs)"
  by (induction cs) auto

lemma pair_set:
  "length ps = 2 \<Longrightarrow> a \<noteq> b \<Longrightarrow> (a \<in> set ps \<and> b \<in> set ps) = (set ps = {a, b})"
  by (cases ps; cases "tl ps") auto

lemma find_cong_set:
  "(\<And>x. x \<in> set xs \<Longrightarrow> P x = Q x) \<Longrightarrow> find P xs = find Q xs"
  by (induction xs) auto

lemma getOrCreateConversation_found:
  assumes "find (\<lambda>c. \<forall>u \<in> set [x, y]. u \<in> set (participants c)) (conversations w) = Some c"
    and "db_fault env (ConversationFindOne [x, y]) = None"
  shows "getOrCreateConversation env x y w =
           (Inr c, log_effect (DbCall (ConversationFindOne [x, y])) w)"
  using assms by (simp add: getOrCreateConversation_def Conversation_findOne_def Let_def)

lemma getOrCreateConversation_created:
  assumes "find (\<lambda>c. \<forall>u \<in> set [x, y]. u \<in> set (participants c)) (conversations w) = None"
    and "db_fault env (ConversationFindOne [x, y]) = None"
    and "db_fault env (ConversationCreate [x, y]) = None"
  shows "\<exists>c w'. getOrCreateConversation env x y w = (Inr c, w') \<and> participants c = [x, y] \<and>
           conversations w' = conversations w @ [c]"
  using assms
  by (simp add: getOrCreateConversation_def Conversation_findOne_def Conversation_create_def Let_def)

lemma getOrCreateConversation_wf:
  "conversations_wf w \<Longrightarrow> conversations_wf (snd (getOrCreateConversation env x y w))"
  by (auto simp: getOrCreateConversation_def Conversation_findOne_def Conversation_create_def
        Let_def conversations_wf_def find_None_iff split: option.splits)

lemma find_snoc:
  "find P xs = None \<Longrightarrow> P c \<Longrightarrow> find P (xs @ [c]) = Some c"
  by (induction xs) (auto split: if_splits)

lemma filter_find_distinct:
  "distinct (map f xs) \<Longrightarrow> find (\<lambda>x. f x = v) xs = Some c \<Longrightarrow> filter (\<lambda>x. f x = v) xs = [c]"
proof (induction xs)
  case Nil
  then show ?case by simp
next
  case (Cons x xs)
  show ?case
  proof (cases "f x = v")
    case True
    from Cons.prems(1) have "f x \<notin> f ` set xs" by simp
    with True have "\<forall>y \<in> set xs. f y \<noteq> v" by blast
    then have "filter (\<lambda>x. f x = v) xs = []" by (simp add: filter_empty_conv)
    with True Cons.prems show ?thesis by simp
  next
    case False
    with Cons show ?thesis by simp
  qed
qed

lemma findOne_either:
  assumes "(x, y) = (a, b) \<or> (x, y) = (b, a)"
  shows "find (\<lambda>c. \<forall>u \<in> set [x, y]. u \<in> set (participants c)) cs =
         find (\<lambda>c. a \<in> set (participants c) \<and> b \<in> set (participants c)) cs"
  using assms by (intro find_cong_set) auto

lemma resolve_all_same:
  assumes "find (\<lambda>c. a \<in> set (participants c) \<and> b \<in> set (participants c)) (conversations w)
             = Some c"
    and "set calls \<subseteq> {(a, b), (b, a)}"
    and "\<forall>q. db_fault env q = None"
  shows "fst (resolve_all env calls w) = Inr (replicate (length calls) (conv_id c)) \<and>
         conversations (snd (resolve_all env calls w)) = conversations w"
  using assms
proof (induction calls arbitrary: w)
  case Nil
  then show ?case by simp
next
  case (Cons call calls)
  obtain x y where xy: "call = (x, y)" by (cases call)
  with Cons.prems have sw: "(x, y) = (a, b) \<or> (x, y) = (b, a)" by auto
  let ?w1 = "log_effect (DbCall (ConversationFindOne [x, y])) w"
  from findOne_either [OF sw, of "conversations w"] Cons.prems(1,3)
  have g: "getOrCreateConversation env x y w = (Inr c, ?w1)"
    by (intro getOrCreateConversation_found) auto
  have "find (\<lambda>c. a \<in> set (participants c) \<and> b \<in> set (participants c)) (conversations ?w1)
          = Some c"
    using Cons.prems by simp
  from Cons.IH [OF this] Cons.prems
  have "fst (resolve_all env calls ?w1) = Inr (replicate (length calls) (conv_id c)) \<and>
        conversations (snd (resolve_all env calls ?w1)) = conversations w"
    by simp
  with g xy show ?case
    by (cases "resolve_all env calls ?w1") auto
qed

lemma resolve_all_first:
  assumes "calls \<noteq> []" and "set calls \<subseteq> {(a, b), (b, a)}"
    and "\<forall>q. db_fault env q = None"
  shows "\<exists>c w1. fst (resolve_all env calls w) = Inr (replicate (length calls) (conv_id c))
           \<and> conversations (snd (resolve_all env calls w)) = conversations w1
           \<and> w1 = snd (getOrCreateConversation env (fst (hd calls)) (snd (hd calls)) w)
           \<and> find (\<lambda>c. a \<in> set (participants c) \<and> b \<in> set (participants c))
                (conversations w1) = Some c"
proof -
  obtain x y rest where calls: "calls = (x, y) # rest"
    using assms(1) by (cases calls) auto
  with assms(2) have sw: "(x, y) = (a, b) \<or> (x, y) = (b, a)"
    and rest: "set rest \<subseteq> {(a, b), (b, a)}"
    by auto
  let ?M = "\<lambda>c. a \<in> set (participants c) \<and> b \<in> set (participants c)"
  obtain r w1 where g: "getOrCreateConversation env x y w = (r, w1)"
    by (cases "getOrCreateConversation env x y w")
  have "\<exists>c. r = Inr c \<and> find ?M (conversations w1) = Some c"
  proof (cases "find ?M (conversations w)")
    case (Some c)
    with findOne_either [OF sw, of "conversations w"] assms(3) g
      getOrCreateConversation_found [of x y w c env]
    show ?thesis by auto
  next
    case None
    with findOne_either [OF sw, of "conversations w"] assms(3)
      getOrCreateConversation_created [of x y w env] g
    obtain c where c: "r = Inr c" "participants c = [x, y]"
      "conversations w1 = conversations w @ [c]"
      by auto
    from c(2) sw have "?M c" by auto
    with None c(3) have "find ?M (conversations w1) = Some c"
      by (simp add: find_snoc)
    with c(1) show ?thesis by simp
  qed
  then obtain c where c: "r = Inr c" "find ?M (conversations w1) = Some c" by blast
  from resolve_all_same [OF c(2) rest assms(3)]
  have r: "fst (resolve_all env rest w1) = Inr (replicate (length rest) (conv_id c))"
    "conversations (snd (resolve_all env rest w1)) = conversations w1"
    by simp_all
  with g c calls have "fst (resolve_all env calls w) = Inr (replicate (length calls) (conv_id c))"
    and "conversations (snd (resolve_all env calls w)) = conversations w1"
    by (cases "resolve_all env rest w1"; auto)+
  with c(2) g calls show ?thesis by auto
qed

lemma handled_by_refl [simp]: "handled_by s w w"
  by (auto simp: handled_by_def)

lemma handled_by_log:
  assumes "handled_by s w w'" and "set (recipients e) \<subseteq> insert s (sockets_in_rooms w')"
  shows "handled_by s w (log_effect e w')"
proof -
  from assms(1) obtain es where es: "trace w' = trace w @ es"
    "\<forall>e \<in> set es. set (recipients e) \<subseteq> insert s (sockets_in_rooms w)"
    and sub: "sockets_in_rooms w' \<subseteq> insert s (sockets_in_rooms w)"
    and rest: "\<forall>c. c \<noteq> s \<longrightarrow> sessions w' c = sessions w c"
      "conversations_wf w \<longrightarrow> conversations_wf w'"
    unfolding handled_by_def by blast
  from es(1) have "trace (log_effect e w') = trace w @ (es @ [e])" by simp
  moreover from es(2) assms(2) sub
  have "\<forall>x \<in> set (es @ [e]). set (recipients x) \<subseteq> insert s (sockets_in_rooms w)"
    by auto
  ultimately have "\<exists>es. trace (log_effect e w') = trace w @ es \<and>
      (\<forall>x \<in> set es. set (recipients x) \<subseteq> insert s (sockets_in_rooms w))"
    by blast
  with sub rest show ?thesis
    unfolding handled_by_def by (simp add: sockets_in_rooms_def conversations_wf_def)
qed

lemma handled_by_emit: "handled_by s w w' \<Longrightarrow> handled_by s w (socket_emit s ev w')"
  unfolding socket_emit_def by (rule handled_by_log) (simp_all add: recipients_def)

lemma handled_by_ack: "handled_by s w w' \<Longrightarrow> handled_by s w (send_ack a s r w')"
  unfolding send_ack_def by (auto intro: handled_by_log simp: recipients_def)

lemma handled_by_io: "handled_by s w w' \<Longrightarrow> handled_by s w (io_to_emit room ev w')"
  unfolding io_to_emit_def
  by (rule handled_by_log) (auto simp: recipients_def members_def sockets_in_rooms_def)

lemma handled_by_join: "handled_by s w w' \<Longrightarrow> handled_by s w (socket_join s room w')"
  by (auto simp: handled_by_def sockets_in_rooms_def conversations_wf_def)

lemma handled_by_internal:
  "handled_by s w w' \<Longrightarrow> is_internal e \<Longrightarrow> handled_by s w (log_effect e w')"
  by (rule handled_by_log) (auto simp: recipients_def is_internal_def split: effect.splits)

lemma handled_by_findById:
  "handled_by s w w' \<Longrightarrow> Conversation_findById env cid w' = (r, w1) \<Longrightarrow> handled_by s w w1"
  by (auto simp: findById_result intro!: handled_by_internal simp: is_internal_def)

lemma handled_by_getOrCreate:
  assumes "handled_by s w w'" and "getOrCreateConversation env x y w' = (r, w1)"
  shows "handled_by s w w1"
proof -
  from getOrCreateConversation_frame [OF assms(2)] obtain es where
    "rooms w1 = rooms w'" "sessions w1 = sessions w'" "trace w1 = trace w' @ es"
    "list_all is_internal es" by blast
  moreover from getOrCreateConversation_wf [of w' env x y] assms(2)
  have "conversations_wf w' \<longrightarrow> conversations_wf w1" by simp
  ultimately show ?thesis using assms(1)
    by (auto simp: handled_by_def sockets_in_rooms_def list_all_iff recipients_def
          is_internal_def split: effect.splits)
qed

lemma update_first_participants:
  "map participants (update_first P (\<lambda>c. c\<lparr>lastMessage := v\<rparr>) cs) = map participants cs"
  by (induction cs) auto

lemma conversations_wf_map:
  "map participants (conversations w') = map participants (conversations w) \<Longrightarrow>
     conversations_wf w \<Longrightarrow> conversations_wf w'"
proof -
  assume eq: "map participants (conversations w') = map participants (conversations w)"
  have m: "\<And>cs. map (\<lambda>c. set (participants c)) cs = map set (map participants cs)"
    and l: "\<And>cs. list_all (\<lambda>c. length (participants c) = 2) cs
               = list_all (\<lambda>ps. length ps = 2) (map participants cs)"
    by (simp_all add: list_all_iff)
  assume "conversations_wf w"
  with eq show "conversations_wf w'"
    unfolding conversations_wf_def m l by simp
qed

lemma addMessage_frame:
  assumes "addMessage env cid s r b w = (res, w1)"
  shows "rooms w1 = rooms w \<and> sessions w1 = sessions w \<and>
         map participants (conversations w1) = map participants (conversations w) \<and>
         (messages w1 = messages w \<or> (\<exists>m. messages w1 = messages w @ [m] \<and> \<not> seen m))"
  using assms
  by (auto simp: addMessage_def Message_create_def Conversation_findByIdAndUpdate_def
        Let_def update_first_participants split: option.splits)

lemma handled_by_addMessage:
  assumes "handled_by s w w'" and "addMessage env cid u r b w' = (res, w1)"
  shows "handled_by s w w1"
proof -
  from addMessage_trace [OF assms(2)] obtain es where
    "trace w1 = trace w' @ es" "list_all is_internal es" by blast
  moreover from addMessage_frame [OF assms(2)] conversations_wf_map [of w1 w']
  have "rooms w1 = rooms w'" "sessions w1 = sessions w'"
    "conversations_wf w' \<longrightarrow> conversations_wf w1" by auto
  ultimately show ?thesis using assms(1)
    by (auto simp: handled_by_def sockets_in_rooms_def list_all_iff recipients_def
          is_internal_def split: effect.splits)
qed

lemma updateMany_result:
  "Message_updateMany env ids cid w =
     (case db_fault env (MessageUpdateMany ids cid) of
        Some err \<Rightarrow> (Inl err, log_effect (DbCall (MessageUpdateMany ids cid)) w)
      | None \<Rightarrow> (Inr (), (log_effect (DbCall (MessageUpdateMany ids cid)) w)
                   \<lparr>messages := map (mark_seen ids cid) (messages w)\<rparr>))"
  by (simp add: Message_updateMany_def Let_def split: option.split)

lemma handled_by_messages:
  "handled_by s w w' \<Longrightarrow> handled_by s w (w'\<lparr>messages := ms\<rparr>)"
  by (auto simp: handled_by_def sockets_in_rooms_def conversations_wf_def)

lemma handled_by_send_message:
  "handled_by s w (send_message env s userId payload ack w)"
proof (rule send_message_cases
    [where env = env and socket = s and userId = userId and payload = payload and w = w],
    goal_cases)
  case 1
  then show ?case by (simp add: handled_by_ack)
next
  case (2 err)
  then show ?case
    by (simp add: send_message_catch_def handled_by_ack handled_by_internal is_internal_def)
next
  case 3
  then show ?case by (simp add: handled_by_ack handled_by_internal is_internal_def)
next
  case 4
  then show ?case by (simp add: handled_by_ack handled_by_internal is_internal_def)
next
  case (5 conv other err w2)
  have "handled_by s w w2"
    by (rule handled_by_addMessage [OF _ 5(1)]) (simp add: handled_by_internal is_internal_def)
  with 5(2) show ?case
    by (simp add: send_message_catch_def handled_by_ack handled_by_internal is_internal_def)
next
  case (6 conv other m w2)
  have "handled_by s w w2"
    by (rule handled_by_addMessage [OF _ 6(1)]) (simp add: handled_by_internal is_internal_def)
  with 6(2) show ?case
    by (simp add: handled_by_ack handled_by_io)
qed

lemma messages_send_message:
  "messages (send_message env s userId payload ack w) = messages w \<or>
   (\<exists>m. messages (send_message env s userId payload ack w) = messages w @ [m] \<and> \<not> seen m)"
proof (rule send_message_cases
    [where env = env and socket = s and userId = userId and payload = payload and w = w],
    goal_cases)
  case (5 conv other err w2)
  from addMessage_frame [OF 5(1)] 5(2) show ?case
    by (auto simp: send_message_catch_def send_ack_def)
next
  case (6 conv other m w2)
  from addMessage_frame [OF 6(1)] 6(2) show ?case
    by (auto simp: send_ack_def io_to_emit_def)
qed (simp_all add: send_ack_def send_message_catch_def)

lemma join_conversation_cases:
  fixes env socket userId payload w
  defines "w1 \<equiv> log_effect (DbCall (ConversationFindById (str_value (join_cid payload)))) w"
  obtains
    (missing) "join_conversation env socket userId payload w =
                 socket_emit socket (JoinError ''otherUserId required if no conversationId'') w"
  | (resolve_failed) err w2 where
      "getOrCreateConversation env userId (str_value (join_other payload)) w = (Inl err, w2)"
      "join_conversation env socket userId payload w = join_conversation_catch socket err w2"
  | (resolved) c :: conversation and w2 where
      "getOrCreateConversation env userId (str_value (join_other payload)) w = (Inr c, w2)"
      "join_conversation env socket userId payload w =
         join_conversation_joined socket (conv_id c) w2"
  | (lookup_failed) err where
      "join_conversation env socket userId payload w = join_conversation_catch socket err w1"
  | (refused)
      "join_conversation env socket userId payload w =
         socket_emit socket (JoinError ''Not authorized to join conversation'') w1"
  | (admitted)
      "join_conversation env socket userId payload w =
         join_conversation_joined socket (str_value (join_cid payload)) w1"
proof (cases "falsy (join_cid payload)")
  case nocid: True
  show thesis
  proof (cases "falsy (join_other payload)")
    case True
    with nocid have "join_conversation env socket userId payload w =
        socket_emit socket (JoinError ''otherUserId required if no conversationId'') w"
      by (simp add: join_conversation_def Let_def join_cid_def join_other_def)
    then show thesis by (rule missing)
  next
    case False
    obtain r w2 where
      g: "getOrCreateConversation env userId (str_value (join_other payload)) w = (r, w2)"
      by (cases "getOrCreateConversation env userId (str_value (join_other payload)) w")
    show thesis
    proof (cases r)
      case (Inl err)
      with g have a: "getOrCreateConversation env userId (str_value (join_other payload)) w
                        = (Inl err, w2)" by simp
      with nocid False
      have "join_conversation env socket userId payload w = join_conversation_catch socket err w2"
        by (simp add: join_conversation_def Let_def join_cid_def join_other_def)
      with a show thesis by (rule resolve_failed)
    next
      case (Inr c)
      with g have a: "getOrCreateConversation env userId (str_value (join_other payload)) w
                        = (Inr c, w2)" by simp
      with nocid False
      have "join_conversation env socket userId payload w =
              join_conversation_joined socket (conv_id c) w2"
        by (simp add: join_conversation_def Let_def join_cid_def join_other_def)
      with a show thesis by (rule resolved)
    qed
  qed
next
  case cid: False
  show thesis
  proof (cases "db_fault env (ConversationFindById (str_value (join_cid payload)))")
    case (Some err)
    with cid have "join_conversation env socket userId payload w =
                     join_conversation_catch socket err w1"
      by (simp add: join_conversation_def Let_def join_cid_def findById_result w1_def)
    then show thesis by (rule lookup_failed)
  next
    case None
    show thesis
    proof (cases "find (\<lambda>c. conv_id c = str_value (join_cid payload)) (conversations w)")
      case nf: None
      with None cid have "join_conversation env socket userId payload w =
         socket_emit socket (JoinError ''Not authorized to join conversation'') w1"
        by (simp add: join_conversation_def Let_def join_cid_def findById_result w1_def)
      then show thesis by (rule refused)
    next
      case (Some conv)
      show thesis
      proof (cases "userId \<in> set (participants conv)")
        case True
        with Some None cid have "join_conversation env socket userId payload w =
           join_conversation_joined socket (str_value (join_cid payload)) w1"
          by (simp add: join_conversation_def Let_def join_cid_def findById_result w1_def)
        then show thesis by (rule admitted)
      next
        case False
        with Some None cid have "join_conversation env socket userId payload w =
           socket_emit socket (JoinError ''Not authorized to join conversation'') w1"
          by (simp add: join_conversation_def Let_def join_cid_def findById_result w1_def)
        then show thesis by (rule refused)
      qed
    qed
  qed
qed

lemma handled_by_join_conversation:
  "handled_by s w (join_conversation env s userId payload w)"
proof (rule join_conversation_cases
    [where env = env and socket = s and userId = userId and payload = payload and w = w],
    goal_cases)
  case 1
  then show ?case by (simp add: handled_by_emit)
next
  case (2 err w2)
  from handled_by_getOrCreate [OF handled_by_refl 2(1)] 2(2) show ?case
    by (simp add: join_conversation_catch_def handled_by_emit handled_by_internal is_internal_def)
next
  case (3 c w2)
  from handled_by_getOrCreate [OF handled_by_refl 3(1)] 3(2) show ?case
    by (simp add: join_conversation_joined_def handled_by_emit handled_by_join)
next
  case (4 err)
  then show ?case
    by (simp add: join_conversation_catch_def handled_by_emit handled_by_internal is_internal_def)
next
  case 5
  then show ?case
    by (simp add: handled_by_emit handled_by_internal is_internal_def)
next
  case 6
  then show ?case
    by (simp add: join_conversation_joined_def handled_by_emit handled_by_join
          handled_by_internal is_internal_def)
qed

lemma messages_join_conversation:
  "messages (join_conversation env s userId payload w) = messages w"
proof (rule join_conversation_cases
    [where env = env and socket = s and userId = userId and payload = payload and w = w],
    goal_cases)
  case (2 err w2)
  from getOrCreateConversation_frame [OF 2(1)] 2(2) show ?case
    by (simp add: join_conversation_catch_def socket_emit_def)
next
  case (3 c w2)
  from getOrCreateConversation_frame [OF 3(1)] 3(2) show ?case
    by (simp add: join_conversation_joined_def socket_emit_def)
qed (simp_all add: join_conversation_catch_def join_conversation_joined_def socket_emit_def)

text \<open>What \<^verbatim>\<open>message_read\<close> leaves behind is one of five worlds.\<close>

lemma message_read_cases:
  fixes env socket userId payload w
  obtains
    (quiet) es where
      "message_read env socket userId payload w = w\<lparr>trace := trace w @ es\<rparr>"
      "list_all (\<lambda>e. recipients e = []) es"
  | (seen) es room ev where
      "message_read env socket userId payload w =
         io_to_emit room ev (w\<lparr>trace := trace w @ es\<rparr>)"
      "list_all (\<lambda>e. recipients e = []) es"
  | (marked) es ids cid room ev where
      "message_read env socket userId payload w =
         io_to_emit room ev
           (w\<lparr>trace := trace w @ es, messages := map (mark_seen ids cid) (messages w)\<rparr>)"
      "list_all (\<lambda>e. recipients e = []) es"
proof (cases payload)
  case None
  then have "message_read env socket userId payload w =
      w\<lparr>trace := trace w @ [ConsoleError ''message_read err'' ''TypeError'']\<rparr>"
    by (simp add: message_read_def message_read_catch_def log_effect_def)
  then show thesis by (rule quiet) (simp add: recipients_def)
next
  case (Some p)
  let ?cid = "r_conversationId p" and ?ids = "r_messageIds p"
  let ?l0 = "ConsoleLog ''conversationId--->'' (LoggedId ?cid)"
  let ?l1 = "DbCall (ConversationFindById (str_value ?cid))"
  let ?l2 = "ConsoleLog ''message ids--->'' (LoggedIds ?ids)"
  let ?l3 = "DbCall (MessageUpdateMany (the ?ids) (str_value ?cid))"
  show thesis
  proof (cases "falsy ?cid \<or> ?ids = None \<or> ?ids = Some []")
    case True
    with Some have "message_read env socket userId payload w = w\<lparr>trace := trace w @ [?l0]\<rparr>"
      by (simp add: message_read_def Let_def log_effect_def)
    then show thesis by (rule quiet) (simp add: recipients_def)
  next
    case False
    then obtain ids where ok: "\<not> falsy ?cid" "?ids = Some ids" "ids \<noteq> []"
      by auto
    show thesis
    proof (cases "db_fault env (ConversationFindById (str_value ?cid))")
      case (Some err)
      with ok \<open>payload = Some p\<close>
      have "message_read env socket userId payload w =
              w\<lparr>trace := trace w @ [?l0, ?l1, ConsoleError ''message_read err'' err]\<rparr>"
        by (simp add: message_read_def Let_def findById_result message_read_catch_def
              log_effect_def)
      then show thesis by (rule quiet) (simp add: recipients_def)
    next
      case None
      let ?conv = "find (\<lambda>c. conv_id c = str_value ?cid) (conversations w)"
      show thesis
      proof (cases "case ?conv of None \<Rightarrow> True | Some c \<Rightarrow> userId \<notin> set (participants c)")
        case True
        with None ok \<open>payload = Some p\<close>
        have "message_read env socket userId payload w =
                w\<lparr>trace := trace w @ [?l0, ?l1, ?l2]\<rparr>"
          by (simp add: message_read_def Let_def findById_result log_effect_def)
        then show thesis by (rule quiet) (simp add: recipients_def)
      next
        case part: False
        let ?room = "''conversation:'' @ str_value ?cid"
        let ?ev = "MessageSeen (str_value ?cid) (the ?ids) userId"
        show thesis
        proof (cases "filter (isValidObjectId env) (the ?ids) = []")
          case True
          with part None ok \<open>payload = Some p\<close>
          have "message_read env socket userId payload w =
                  io_to_emit ?room ?ev (w\<lparr>trace := trace w @ [?l0, ?l1, ?l2]\<rparr>)"
            by (simp add: message_read_def Let_def findById_result log_effect_def)
          then show thesis by (rule seen) (simp add: recipients_def)
        next
          case valid: False
          show thesis
          proof (cases "db_fault env (MessageUpdateMany (the ?ids) (str_value ?cid))")
            case (Some err)
            with valid part None ok \<open>payload = Some p\<close>
            have "message_read env socket userId payload w =
                    w\<lparr>trace := trace w @
                       [?l0, ?l1, ?l2, ?l3, ConsoleError ''message_read err'' err]\<rparr>"
              by (simp add: message_read_def Let_def findById_result updateMany_result
                    message_read_catch_def log_effect_def)
            then show thesis by (rule quiet) (simp add: recipients_def)
          next
            case upd: None
            with valid part None ok \<open>payload = Some p\<close>
            have "message_read env socket userId payload w =
                    io_to_emit ?room ?ev
                      (w\<lparr>trace := trace w @ [?l0, ?l1, ?l2, ?l3],
                         messages := map (mark_seen (the ?ids) (str_value ?cid)) (messages w)\<rparr>)"
              by (simp add: message_read_def Let_def findById_result updateMany_result
                    log_effect_def)
            then show thesis by (rule marked) (simp add: recipients_def)
          qed
        qed
      qed
    qed
  qed
qed

lemma handled_by_trace:
  "handled_by s w w' \<Longrightarrow> list_all (\<lambda>e. recipients e = []) es \<Longrightarrow>
     handled_by s w (w'\<lparr>trace := trace w' @ es\<rparr>)"
proof (induction es rule: rev_induct)
  case Nil
  then show ?case by simp
next
  case (snoc e es)
  then have "handled_by s w (log_effect e (w'\<lparr>trace := trace w' @ es\<rparr>))"
    by (intro handled_by_log) simp_all
  then show ?case by (simp add: log_effect_def)
qed

lemma handled_by_message_read:
  "handled_by s w (message_read env s userId payload w)"
proof (rule message_read_cases
    [where env = env and socket = s and userId = userId and payload = payload and w = w],
    goal_cases)
  case (1 es)
  with handled_by_trace [OF handled_by_refl, of es s w] show ?case by simp
next
  case (2 es room ev)
  with handled_by_trace [OF handled_by_refl, of es s w] show ?case
    by (simp add: handled_by_io)
next
  case (3 es ids cid room ev)
  from handled_by_messages [OF handled_by_trace [OF handled_by_refl, of es s w]] 3
  show ?case by (simp add: handled_by_io)
qed

lemma messages_message_read:
  "messages (message_read env s userId payload w) = messages w \<or>
   (\<exists>ids cid. messages (message_read env s userId payload w)
                = map (mark_seen ids cid) (messages w))"
  by (rule message_read_cases
        [where env = env and socket = s and userId = userId and payload = payload and w = w])
     (auto simp: io_to_emit_def)

lemma handled_by_connection: "handled_by s w (connection env s hdr w)"
  by (auto simp: connection_def handled_by_def sockets_in_rooms_def conversations_wf_def
        recipients_def log_effect_def split: sum.splits)

lemma messages_connection: "messages (connection env s hdr w) = messages w"
  by (simp add: connection_def split: sum.splits)

lemma handled_by_server_step: "handled_by (socket_of st) w (server_step env w st)"
  by (cases st)
     (auto simp: client_emit_def handled_by_connection handled_by_join_conversation
        handled_by_send_message handled_by_message_read
        split: option.splits client_event.splits)

lemma messages_server_step:
  "messages (server_step env w st) = messages w
   \<or> (\<exists>m. messages (server_step env w st) = messages w @ [m] \<and> \<not> seen m)
   \<or> (\<exists>ids cid. messages (server_step env w st) = map (mark_seen ids cid) (messages w))"
proof (cases st)
  case (Connect s hdr)
  then show ?thesis by (simp add: messages_connection)
next
  case (Client s ev)
  show ?thesis
  proof (cases "sessions w s")
    case None
    with Client show ?thesis by (simp add: client_emit_def)
  next
    case (Some u)
    show ?thesis
    proof (cases ev)
      case (JoinConversation p)
      with Some Client show ?thesis by (simp add: client_emit_def messages_join_conversation)
    next
      case (SendMessage p a)
      with Some Client messages_send_message [of env s u p a w] show ?thesis
        by (auto simp: client_emit_def)
    next
      case (MessageRead p)
      with Some Client messages_message_read [of env s u p w] show ?thesis
        by (auto simp: client_emit_def)
    qed
  qed
qed

lemma seen_step_refl [simp]: "seen_step m m"
  by (simp add: seen_step_def)

lemma seen_step_trans: "seen_step a b \<Longrightarrow> seen_step b c \<Longrightarrow> seen_step a c"
  by (auto simp: seen_step_def)

lemma seen_step_mark [simp]: "seen_step m (mark_seen ids cid m)"
  by (cases "seen m") (auto simp: seen_step_def mark_seen_def)

lemma messages_evolve_refl [simp]: "messages_evolve ms ms"
  by (simp add: messages_evolve_def list_all2_same)

lemma messages_evolve_trans:
  assumes "messages_evolve a b" and "messages_evolve b c"
  shows "messages_evolve a c"
proof -
  from assms have len: "length a \<le> length b" "length b \<le> length c"
    by (simp_all add: messages_evolve_def)
  have "list_all2 seen_step a (take (length a) c)"
  proof (rule list_all2_all_nthI)
    show "length a = length (take (length a) c)" using len by simp
  next
    fix n assume n: "n < length a"
    from assms(1) n have "seen_step (a ! n) (b ! n)"
      by (auto simp: messages_evolve_def list_all2_conv_all_nth)
    moreover from assms(2) n len have "seen_step (b ! n) (c ! n)"
      by (auto simp: messages_evolve_def list_all2_conv_all_nth)
    ultimately show "seen_step (a ! n) (take (length a) c ! n)"
      using n by (auto intro: seen_step_trans)
  qed
  with len show ?thesis by (simp add: messages_evolve_def)
qed

lemma messages_evolve_step: "messages_evolve (messages w) (messages (server_step env w st))"
  using messages_server_step [of env w st]
  by (auto simp: messages_evolve_def list_all2_same list_all2_conv_all_nth nth_append)

lemma messages_evolve_run: "messages_evolve (messages w) (messages (run env steps w))"
proof (induction steps arbitrary: w)
  case Nil
  then show ?case by (simp add: run_def)
next
  case (Cons st steps)
  from messages_evolve_trans [OF messages_evolve_step Cons.IH [of "server_step env w st"]]
  show ?case by (simp add: run_def)
qed

lemma new_messages_unseen:
  "list_all unseen (drop (length (messages w)) (messages (server_step env w st)))"
  using messages_server_step [of env w st]
  by (auto simp: unseen_def)

lemma mark_seen_idem [simp]: "mark_seen ids cid (mark_seen ids cid m) = mark_seen ids cid m"
  by (simp add: mark_seen_def)

lemma io_use_result:
  "io_use env cookie_header =
     (if access_token env cookie_header = [] then Inl ''Unauthorized''
      else case jwt_verify env (access_token env cookie_header) of
             None \<Rightarrow> Inl ''Forbidden'' | Some decoded_id \<Rightarrow> Inr decoded_id)"
  by (simp add: io_use_def access_token_def Let_def)

lemma unconnected_step:
  assumes "sessions w c = None" and "c \<notin> sockets_in_rooms w" and "\<forall>h. st \<noteq> Connect c h"
  shows "sessions (server_step env w st) c = None \<and> c \<notin> sockets_in_rooms (server_step env w st)
       \<and> (\<exists>es. trace (server_step env w st) = trace w @ es \<and> (\<forall>e \<in> set es. c \<notin> set (recipients e)))
       \<and> (socket_of st = c \<longrightarrow> server_step env w st = w)"
proof (cases "socket_of st = c")
  case True
  with assms(3) obtain ev where "st = Client c ev" by (cases st) auto
  with assms(1) have "server_step env w st = w" by (simp add: client_emit_def)
  with assms show ?thesis by simp
next
  case False
  with handled_by_server_step [of st w env] assms(1,2) show ?thesis
    unfolding handled_by_def by (auto; blast)
qed

lemma unconnected_run:
  assumes "sessions w c = None" and "c \<notin> sockets_in_rooms w"
    and "\<forall>h. Connect c h \<notin> set steps"
  shows "sessions (run env steps w) c = None \<and> c \<notin> sockets_in_rooms (run env steps w)
       \<and> (\<exists>es. trace (run env steps w) = trace w @ es \<and> (\<forall>e \<in> set es. c \<notin> set (recipients e)))
       \<and> run env steps w = run env (filter (\<lambda>st. socket_of st \<noteq> c) steps) w"
  using assms
proof (induction steps arbitrary: w)
  case Nil
  then show ?case by (simp add: run_def)
next
  case (Cons st steps)
  let ?w = "server_step env w st"
  from Cons.prems(3) have st: "\<forall>h. st \<noteq> Connect c h" and rest: "\<forall>h. Connect c h \<notin> set steps"
    by auto
  from unconnected_step [OF Cons.prems(1,2) st, of env]
  obtain es where s: "sessions ?w c = None" "c \<notin> sockets_in_rooms ?w"
    "trace ?w = trace w @ es" "\<forall>e \<in> set es. c \<notin> set (recipients e)"
    "socket_of st = c \<longrightarrow> ?w = w" by blast
  from Cons.IH [OF s(1,2) rest]
  obtain es' where r: "sessions (run env steps ?w) c = None"
    "c \<notin> sockets_in_rooms (run env steps ?w)"
    "trace (run env steps ?w) = trace ?w @ es'" "\<forall>e \<in> set es'. c \<notin> set (recipients e)"
    "run env steps ?w = run env (filter (\<lambda>st. socket_of st \<noteq> c) steps) ?w" by blast
  have run: "run env (st # steps) w = run env steps ?w" by (simp add: run_def)
  from s(3,4) r(3,4)
  have "\<exists>es. trace (run env steps ?w) = trace w @ es \<and> (\<forall>e \<in> set es. c \<notin> set (recipients e))"
    by (intro exI [of _ "es @ es'"]) auto
  moreover from r(5) s(5)
  have "run env steps ?w = run env (filter (\<lambda>st. socket_of st \<noteq> c) (st # steps)) w"
    by (auto simp: run_def)
  ultimately show ?case using r(1,2) run by simp
qed

lemma conversations_wf_run: "conversations_wf w \<Longrightarrow> conversations_wf (run env steps w)"
proof (induction steps arbitrary: w)
  case Nil
  then show ?case by (simp add: run_def)
next
  case (Cons st steps)
  from handled_by_server_step [of st w env] Cons.prems
  have "conversations_wf (server_step env w st)" by (simp add: handled_by_def)
  from Cons.IH [OF this] show ?case by (simp add: run_def)
qed

lemma conversations_wf_init: "conversations_wf (run env steps w_init)"
  by (rule conversations_wf_run) (simp add: conversations_wf_def w_init_def)

lemma addMessage_requests:
  assumes "addMessage env cid s r b w = (res, w1)"
  shows "\<exists>qs. trace w1 = trace w @ map DbCall qs \<and>
           (case res of
              Inl err \<Rightarrow> (\<exists>q \<in> set qs. db_fault env q = Some err) \<and>
                         (\<forall>q \<in> set qs. db_fault env q \<in> {None, Some err})
            | Inr m \<Rightarrow> \<forall>q \<in> set qs. db_fault env q = None)"
proof -
  let ?q1 = "MessageCreate cid s r b"
  show ?thesis
  proof (cases "db_fault env ?q1")
    case (Some err)
    with assms have "trace w1 = trace w @ map DbCall [?q1]" "res = Inl err"
      by (auto simp: addMessage_def Message_create_def Let_def)
    with Some show ?thesis by (intro exI [of _ "[?q1]"]) simp
  next
    case None
    let ?q2 = "ConversationFindByIdAndUpdate cid (gen_id env (next_id w))"
    show ?thesis
    proof (cases "db_fault env ?q2")
      case (Some err)
      with None assms have "trace w1 = trace w @ map DbCall [?q1, ?q2]" "res = Inl err"
        by (auto simp: addMessage_def Message_create_def Conversation_findByIdAndUpdate_def Let_def)
      with Some None show ?thesis by (intro exI [of _ "[?q1, ?q2]"]) simp
    next
      case ok: None
      with None assms have "trace w1 = trace w @ map DbCall [?q1, ?q2]" "\<exists>m. res = Inr m"
        by (auto simp: addMessage_def Message_create_def Conversation_findByIdAndUpdate_def Let_def)
      with None ok show ?thesis by (intro exI [of _ "[?q1, ?q2]"]) auto
    qed
  qed
qed

lemma send_message_logged:
  "ConsoleError l err \<in> set (new_effects w (send_message env socket userId payload False w))
     \<longleftrightarrow> l = ''send_message error'' \<and>
          (\<exists>q. DbCall q \<in> set (new_effects w (send_message env socket userId payload False w))
               \<and> db_fault env q = Some err)"
proof (rule send_message_cases
    [where env = env and socket = socket and userId = userId and payload = payload and w = w],
    goal_cases)
  case 1
  then show ?case by (simp add: send_ack_def new_effects_def)
next
  case (2 e)
  then show ?case
    by (auto simp: send_ack_def send_message_catch_def new_effects_def)
next
  case 3
  then show ?case by (auto simp: send_ack_def new_effects_def)
next
  case 4
  then show ?case by (auto simp: send_ack_def new_effects_def)
next
  case (5 conv other e w2)
  from addMessage_requests [OF 5(1)] obtain qs where
    qs: "trace w2 = trace w @ DbCall (ConversationFindById (send_cid payload)) # map DbCall qs"
        "\<exists>q \<in> set qs. db_fault env q = Some e"
        "\<forall>q \<in> set qs. db_fault env q \<in> {None, Some e}"
    by auto
  have "new_effects w (send_message env socket userId payload False w) =
          DbCall (ConversationFindById (send_cid payload)) # map DbCall qs
          @ [ConsoleError ''send_message error'' e]"
    using qs(1) 5(2) by (simp add: send_ack_def send_message_catch_def new_effects_def)
  with qs(2,3) 5(3) show ?case by auto
next
  case (6 conv other m w2)
  from addMessage_requests [OF 6(1)] obtain qs where
    qs: "trace w2 = trace w @ DbCall (ConversationFindById (send_cid payload)) # map DbCall qs"
        "\<forall>q \<in> set qs. db_fault env q = None"
    by auto
  with 6(2) 6(3) show ?case
    by (auto simp: send_ack_def io_to_emit_def new_effects_def)
qed

section \<open>send\_message\<close>

text \<open>
  C1 (as amended). A successful \<^verbatim>\<open>send_message\<close> (a payload with a conversation id and
  a content, a caller who is a participant, another participant, a store that accepts the
  three requests) does, in this order: the lookup of the conversation, the creation of the
  message, the update of \<^verbatim>\<open>lastMessage\<close>; then the broadcast of \<^verbatim>\<open>receive_message\<close>
  to the conversation room, then \<^verbatim>\<open>new_message_notification\<close>, with a snippet of at
  most 120 characters, to the other participant's user channel; and last, when the caller
  gave a callback, the acknowledgment \<^verbatim>\<open>{ok: true, message: out}\<close>.
\<close>

theorem send_message_effect_order:
  assumes "s_conversationId p = Some cid" and "cid \<noteq> []"
    and "s_content p = Some body" and "body \<noteq> []"
    and "find (\<lambda>c. conv_id c = cid) (conversations w) = Some conv"
    and "userId \<in> set (participants conv)"
    and "find (\<lambda>u. u \<noteq> userId) (participants conv) = Some other" and "other \<noteq> []"
    and "db_fault env (ConversationFindById cid) = None"
    and "db_fault env (MessageCreate cid userId other body) = None"
    and "db_fault env (ConversationFindByIdAndUpdate cid (gen_id env (next_id w))) = None"
    and "m = \<lparr>msg_id = gen_id env (next_id w), conversationId = cid, sender = userId,
               receiver = other, content = body, seen = False, createdAt = clock w\<rparr>"
  shows "new_effects w (send_message env socket userId (Some p) ack w) =
           [DbCall (ConversationFindById cid),
            DbCall (MessageCreate cid userId other body),
            DbCall (ConversationFindByIdAndUpdate cid (msg_id m)),
            ToRoom (''conversation:'' @ cid) (members w (''conversation:'' @ cid))
              (ReceiveMessage m (s_localId p)),
            ToRoom (''user:'' @ other) (members w (''user:'' @ other))
              (NewMessageNotification cid userId (msg_id m) (take 120 body) (clock w))]
           @ (if ack then [Ack socket (AckOk m (s_localId p))] else [])"
  using assms find_id[OF assms(5)]
  by (simp add: send_defs members_def)

theorem send_message_effect_order_witness:
  "new_effects w0 (send_message env0 1 ''alice'' (Some hi) True w0) =
     [DbCall (ConversationFindById ''c1''),
      DbCall (MessageCreate ''c1'' ''alice'' ''bob'' ''hi''),
      DbCall (ConversationFindByIdAndUpdate ''c1'' ''idx''),
      ToRoom ''conversation:c1'' [2] (ReceiveMessage hi_message (Some ''x1'')),
      ToRoom ''user:bob'' [2] (NewMessageNotification ''c1'' ''alice'' ''idx'' ''hi'' 7),
      Ack 1 (AckOk hi_message (Some ''x1''))]"
  using send_message_effect_order [where p = hi and cid = "''c1''" and body = "''hi''"
      and w = w0 and userId = "''alice''" and other = "''bob''" and env = env0
      and conv = alice_bob
      and m = hi_message and socket = 1 and ack = True]
  by (simp add: w0_def alice_bob_def env0_def hi_def hi_message_def members_def)

text \<open>
  The order claimed by C1, acknowledgment first, is not the order of the code: on the
  input of the witness the acknowledgment comes after both broadcasts.
\<close>

theorem send_message_ack_first_counterexample:
  "client_effects (new_effects w0 (send_message env0 1 ''alice'' (Some hi) True w0)) =
     [ToRoom ''conversation:c1'' [2] (ReceiveMessage hi_message (Some ''x1'')),
      ToRoom ''user:bob'' [2] (NewMessageNotification ''c1'' ''alice'' ''idx'' ''hi'' 7),
      Ack 1 (AckOk hi_message (Some ''x1''))]
   \<and> client_effects (new_effects w0 (send_message env0 1 ''alice'' (Some hi) True w0)) \<noteq>
     [Ack 1 (AckOk hi_message (Some ''x1'')),
      ToRoom ''conversation:c1'' [2] (ReceiveMessage hi_message (Some ''x1'')),
      ToRoom ''user:bob'' [2] (NewMessageNotification ''c1'' ''alice'' ''idx'' ''hi'' 7)]"
  by (simp add: send_defs members_def w0_def alice_bob_def env0_def hi_def hi_message_def
        client_effects_def is_internal_def)

text \<open>
  C5 (as amended). A \<^verbatim>\<open>send_message\<close> whose payload is missing, or has a missing or empty
  \<^verbatim>\<open>conversationId\<close> or \<^verbatim>\<open>content\<close>, acknowledges \<^verbatim>\<open>{ok: false, error: "Invalid payload"}\<close>
  when the caller gave a callback and does nothing else: no request to the store, no
  broadcast, the store and the rooms as they were. Without a callback it does nothing
  at all.
\<close>

theorem send_message_invalid_payload:
  assumes "case payload of None \<Rightarrow> True
           | Some p \<Rightarrow> falsy (s_conversationId p) \<or> falsy (s_content p)"
  shows "send_message env socket userId payload ack w =
           (if ack then w\<lparr>trace := trace w @ [Ack socket (AckFail ''Invalid payload'')]\<rparr> else w)"
  using assms
  by (auto simp: send_message_def send_ack_def log_effect_def falsy_def Let_def
           split: option.splits)

theorem send_message_invalid_payload_witness:
  "send_message env0 1 ''alice'' (Some no_content) True w0 =
     w0\<lparr>trace := trace w0 @ [Ack 1 (AckFail ''Invalid payload'')]\<rparr>"
  using send_message_invalid_payload [of "Some no_content" env0 1 "''alice''" True w0]
  by (simp add: no_content_def falsy_def)

text \<open>
  C5 as stated promises the acknowledgment to every such call; a call without a callback
  gets none.
\<close>

theorem send_message_invalid_payload_counterexample:
  "new_effects w0 (send_message env0 1 ''alice'' (Some no_content) False w0) = []"
  by (simp add: send_defs no_content_def)

text \<open>
  C10 (as amended). Without a callback \<^verbatim>\<open>send_message\<close> does what it does with one,
  less the acknowledgment: with a callback the outcome is the outcome without, followed
  by one acknowledgment, and without, no acknowledgment is among the effects, on success
  and on every failure. When that acknowledgment would have been a failure, the call
  without a callback leaves only requests to the store and lines of \<^verbatim>\<open>console.error\<close>,
  and it leaves such a line exactly for an error with which the store rejected one of
  its requests: an invalid payload, a caller who is no participant and a missing other
  participant are not logged.
\<close>

theorem send_message_without_ack:
  "(\<exists>res. send_message env socket userId payload True w =
            log_effect (Ack socket res) (send_message env socket userId payload False w))
   \<and> filter is_ack (new_effects w (send_message env socket userId payload False w)) = []
   \<and> (\<forall>err. send_message env socket userId payload True w =
              log_effect (Ack socket (AckFail err))
                (send_message env socket userId payload False w) \<longrightarrow>
            list_all is_internal
              (new_effects w (send_message env socket userId payload False w)))
   \<and> (\<forall>l err.
         ConsoleError l err \<in> set (new_effects w (send_message env socket userId payload False w))
         \<longleftrightarrow> l = ''send_message error'' \<and>
              (\<exists>q. DbCall q \<in> set (new_effects w (send_message env socket userId payload False w))
                   \<and> db_fault env q = Some err))"
proof -
  have "(\<exists>res. send_message env socket userId payload True w =
            log_effect (Ack socket res) (send_message env socket userId payload False w))
   \<and> filter is_ack (new_effects w (send_message env socket userId payload False w)) = []
   \<and> (\<forall>err. send_message env socket userId payload True w =
              log_effect (Ack socket (AckFail err))
                (send_message env socket userId payload False w) \<longrightarrow>
            list_all is_internal
              (new_effects w (send_message env socket userId payload False w)))"
  proof (rule send_message_cases
      [where env = env and socket = socket and userId = userId and payload = payload and w = w],
      goal_cases)
    case 1
    then show ?case
      by (auto simp: send_ack_def new_effects_def)
  next
    case (2 err)
    then show ?case
      by (auto simp: send_ack_def send_message_catch_def new_effects_def log_effect_def
            is_ack_def is_internal_def)
  next
    case 3
    then show ?case
      by (auto simp: send_ack_def new_effects_def log_effect_def is_ack_def is_internal_def)
  next
    case 4
    then show ?case
      by (auto simp: send_ack_def new_effects_def log_effect_def is_ack_def is_internal_def)
  next
    case (5 conv other err w2)
    from addMessage_trace[OF 5(1)] 5(2) show ?case
      by (auto simp: send_ack_def send_message_catch_def new_effects_def log_effect_def
            is_ack_def is_internal_def)
  next
    case (6 conv other m w2)
    from 6(2) [of True] 6(2) [of False]
    have "send_message env socket userId payload True w =
            log_effect (Ack socket (AckOk m (send_localId payload)))
              (send_message env socket userId payload False w)"
      by (simp add: send_ack_def)
    moreover from addMessage_trace [OF 6(1)] 6(2) [of False]
    have "filter is_ack (new_effects w (send_message env socket userId payload False w)) = []"
      by (auto simp: send_ack_def new_effects_def log_effect_def io_to_emit_def is_ack_def)
    ultimately show ?case
      by (auto dest: log_effect_inject)
  qed
  with send_message_logged [of _ _ w env socket userId payload] show ?thesis
    by blast
qed

theorem send_message_without_ack_witness:
  "send_message env_down 1 ''alice'' (Some hi) True w0 =
     log_effect (Ack 1 (AckFail ''store down''))
       (send_message env_down 1 ''alice'' (Some hi) False w0)
   \<and> new_effects w0 (send_message env_down 1 ''alice'' (Some hi) False w0) =
       [DbCall (ConversationFindById ''c1''), ConsoleError ''send_message error'' ''store down'']
   \<and> list_all is_internal (new_effects w0 (send_message env_down 1 ''alice'' (Some hi) False w0))"
  using send_message_without_ack [of env_down 1 "''alice''" "Some hi" w0]
  by (simp add: send_defs env_down_def env0_def hi_def w0_def)

text \<open>
  C10 as stated has every failure logged. Carol is no participant of the conversation:
  her message without a callback fails after the lookup, with no line on the console.
\<close>

theorem send_message_not_logged_counterexample:
  "new_effects w0 (send_message env0 3 ''carol'' (Some hi) True w0)
     = [DbCall (ConversationFindById ''c1''), Ack 3 (AckFail ''Not a participant'')]
   \<and> new_effects w0 (send_message env0 3 ''carol'' (Some hi) False w0)
     = [DbCall (ConversationFindById ''c1'')]"
  by (simp add: send_defs hi_def w0_def alice_bob_def env0_def)

section \<open>join\_conversation\<close>

text \<open>
  C6. A \<^verbatim>\<open>join_conversation\<close> with a conversation id for which no conversation exists,
  or one that does not have the caller among its participants, changes nothing but the
  effects: after the lookup the caller is sent \<^verbatim>\<open>join_error\<close> (after a logged failure
  of the lookup, too), and the rooms are as before. With neither a conversation id nor an
  \<^verbatim>\<open>otherUserId\<close> the only effect is the \<^verbatim>\<open>join_error\<close> that asks for one.
\<close>

theorem join_conversation_rejected:
  "(j_conversationId p = Some cid \<and> cid \<noteq> [] \<and>
      (case find (\<lambda>c. conv_id c = cid) (conversations w) of
         None \<Rightarrow> True | Some conv \<Rightarrow> userId \<notin> set (participants conv)) \<longrightarrow>
    join_conversation env socket userId (Some p) w =
      w\<lparr>trace := trace w @
        (case db_fault env (ConversationFindById cid) of
           None \<Rightarrow> [DbCall (ConversationFindById cid),
                    Emit socket (JoinError ''Not authorized to join conversation'')]
         | Some err \<Rightarrow> [DbCall (ConversationFindById cid),
                        ConsoleError ''join_conversation err'' err,
                        Emit socket (JoinError ''Failed to join conversation'')])\<rparr>)
   \<and> ((case payload of None \<Rightarrow> True
        | Some q \<Rightarrow> falsy (j_conversationId q) \<and> falsy (j_otherUserId q)) \<longrightarrow>
       join_conversation env socket userId payload w =
         w\<lparr>trace := trace w @
           [Emit socket (JoinError ''otherUserId required if no conversationId'')]\<rparr>)"
proof (intro conjI impI)
  assume "j_conversationId p = Some cid \<and> cid \<noteq> [] \<and>
      (case find (\<lambda>c. conv_id c = cid) (conversations w) of
         None \<Rightarrow> True | Some conv \<Rightarrow> userId \<notin> set (participants conv))"
  then show "join_conversation env socket userId (Some p) w =
      w\<lparr>trace := trace w @
        (case db_fault env (ConversationFindById cid) of
           None \<Rightarrow> [DbCall (ConversationFindById cid),
                    Emit socket (JoinError ''Not authorized to join conversation'')]
         | Some err \<Rightarrow> [DbCall (ConversationFindById cid),
                        ConsoleError ''join_conversation err'' err,
                        Emit socket (JoinError ''Failed to join conversation'')])\<rparr>"
    by (simp add: join_conversation_def Let_def findById_result falsy_def str_value_def
          join_conversation_catch_def socket_emit_def log_effect_def
          split: option.splits)
next
  assume "case payload of None \<Rightarrow> True
        | Some q \<Rightarrow> falsy (j_conversationId q) \<and> falsy (j_otherUserId q)"
  then have "falsy (case payload of None \<Rightarrow> None | Some q \<Rightarrow> j_conversationId q)"
    and "falsy (case payload of None \<Rightarrow> None | Some q \<Rightarrow> j_otherUserId q)"
    by (auto simp: falsy_def split: option.splits)
  then show "join_conversation env socket userId payload w =
         w\<lparr>trace := trace w @
           [Emit socket (JoinError ''otherUserId required if no conversationId'')]\<rparr>"
    by (simp add: join_conversation_def Let_def socket_emit_def log_effect_def)
qed

theorem join_conversation_rejected_witness:
  "join_conversation env0 3 ''carol'' (Some stranger_join) w0 =
     w0\<lparr>trace := [DbCall (ConversationFindById ''c1''),
                   Emit 3 (JoinError ''Not authorized to join conversation'')]\<rparr>
   \<and> join_conversation env0 3 ''carol'' (Some empty_join) w0 =
     w0\<lparr>trace := [Emit 3 (JoinError ''otherUserId required if no conversationId'')]\<rparr>"
  using join_conversation_rejected [where p = stranger_join and cid = "''c1''" and w = w0
      and userId = "''carol''" and env = env0 and socket = 3 and payload = "Some empty_join"]
  by (simp add: stranger_join_def empty_join_def w0_def alice_bob_def env0_def falsy_def)




text \<open>
  C9. When \<^verbatim>\<open>join_conversation\<close> answers \<^verbatim>\<open>joined_conversation\<close> with an id, the socket
  is in the room of that id and a conversation of that id has the caller among its
  participants, on either path: by the membership check when the payload names the
  conversation, and because \<^verbatim>\<open>getOrCreateConversation\<close> is called with the caller's own
  id when it names the other user.
\<close>

theorem join_conversation_member:
  assumes "Emit socket (JoinedConversation cid) \<in>
             set (new_effects w (join_conversation env socket userId payload w))"
  shows "(socket, ''conversation:'' @ cid) \<in> set (rooms (join_conversation env socket userId payload w))
       \<and> (\<exists>c \<in> set (conversations (join_conversation env socket userId payload w)).
             conv_id c = cid \<and> userId \<in> set (participants c))"
proof -
  let ?cid = "case payload of None \<Rightarrow> None | Some p \<Rightarrow> j_conversationId p"
  let ?other = "case payload of None \<Rightarrow> None | Some p \<Rightarrow> j_otherUserId p"
  show ?thesis
  proof (cases "falsy ?cid")
    case True
    show ?thesis
    proof (cases "falsy ?other")
      case True
      with \<open>falsy ?cid\<close> assms show ?thesis
        by (simp add: join_conversation_def Let_def socket_emit_def)
    next
      case False
      obtain r w1 where g: "getOrCreateConversation env userId (str_value ?other) w = (r, w1)"
        by (cases "getOrCreateConversation env userId (str_value ?other) w")
      from getOrCreateConversation_frame [OF g] obtain es where
        es: "trace w1 = trace w @ es" "list_all is_internal es" by blast
      show ?thesis
      proof (cases r)
        case (Inl err)
        with \<open>falsy ?cid\<close> False g assms es show ?thesis
          by (auto simp: join_conversation_def Let_def join_conversation_catch_def
                socket_emit_def list_all_iff is_internal_def)
      next
        case (Inr c)
        with \<open>falsy ?cid\<close> False g
        have j: "join_conversation env socket userId payload w =
                   join_conversation_joined socket (conv_id c) w1"
          by (simp add: join_conversation_def Let_def)
        with assms es have "cid = conv_id c"
          by (auto simp: join_conversation_joined_def socket_emit_def
                list_all_iff is_internal_def)
        with j getOrCreateConversation_result [OF g [unfolded Inr]] show ?thesis
          by (auto simp: join_conversation_joined_def socket_emit_def)
      qed
    qed
  next
    case False
    let ?found = "find (\<lambda>c. conv_id c = str_value ?cid) (conversations w)"
    show ?thesis
    proof (cases "db_fault env (ConversationFindById (str_value ?cid))")
      case (Some err)
      with False assms show ?thesis
        by (simp add: join_conversation_def Let_def findById_result
              join_conversation_catch_def socket_emit_def)
    next
      case None
      show ?thesis
      proof (cases ?found)
        case no: None
        with None False assms show ?thesis
          by (simp add: join_conversation_def Let_def findById_result socket_emit_def)
      next
        case (Some conv)
        then have "conv \<in> set (conversations w)" "conv_id conv = str_value ?cid"
          by (auto simp: find_Some_iff)
        with Some None False assms show ?thesis
          by (auto simp: join_conversation_def Let_def findById_result socket_emit_def
                join_conversation_joined_def split: if_splits)
      qed
    qed
  qed
qed

theorem join_conversation_member_witness:
  "Emit 1 (JoinedConversation ''c1'') \<in>
      set (new_effects w0 (join_conversation env0 1 ''alice'' (Some join_bob) w0))
   \<and> (1, ''conversation:c1'') \<in> set (rooms (join_conversation env0 1 ''alice'' (Some join_bob) w0))
   \<and> (\<exists>c \<in> set (conversations (join_conversation env0 1 ''alice'' (Some join_bob) w0)).
         conv_id c = ''c1'' \<and> ''alice'' \<in> set (participants c))"
proof -
  have h: "Emit 1 (JoinedConversation ''c1'') \<in>
      set (new_effects w0 (join_conversation env0 1 ''alice'' (Some join_bob) w0))"
    by (simp add: join_defs join_bob_def w0_def alice_bob_def env0_def)
  from join_conversation_member [OF h] h show ?thesis by simp
qed

section \<open>message\_read\<close>

text \<open>
  C2. In \<^verbatim>\<open>message_read\<close> from a participant, with a conversation id and a non-empty
  list of message ids (and a store that answers the lookup): after the lookup, the update
  that sets \<^verbatim>\<open>seen\<close> within the conversation is requested exactly when some id of the
  list is well formed, and it is requested for the list as it came, malformed ids
  included; when the store accepts it the messages of the conversation whose id is in the
  list are marked, and otherwise the messages are as before.
\<close>

theorem message_read_update:
  assumes "r_conversationId p = Some cid" and "cid \<noteq> []"
    and "r_messageIds p = Some ids" and "ids \<noteq> []"
    and "find (\<lambda>c. conv_id c = cid) (conversations w) = Some conv"
    and "userId \<in> set (participants conv)"
    and "db_fault env (ConversationFindById cid) = None"
    and "w' = message_read env socket userId (Some p) w"
    and "attempted = (filter (isValidObjectId env) ids \<noteq> [])"
  shows "new_effects w w' =
           [ConsoleLog ''conversationId--->'' (LoggedId (Some cid)),
            DbCall (ConversationFindById cid),
            ConsoleLog ''message ids--->'' (LoggedIds (Some ids))]
           @ (if attempted then [DbCall (MessageUpdateMany ids cid)] else [])
           @ [case (if attempted then db_fault env (MessageUpdateMany ids cid) else None) of
                None \<Rightarrow> ToRoom (''conversation:'' @ cid) (members w (''conversation:'' @ cid))
                          (MessageSeen cid ids userId)
              | Some err \<Rightarrow> ConsoleError ''message_read err'' err]
       \<and> messages w' =
           (if attempted \<and> db_fault env (MessageUpdateMany ids cid) = None
            then map (mark_seen ids cid) (messages w) else messages w)"
  using assms
  by (simp add: message_read_def Let_def findById_result falsy_def str_value_def
        Message_updateMany_def message_read_catch_def io_to_emit_def members_def
        split: option.splits)

theorem message_read_update_witness:
  "new_effects w_unread (message_read env0 2 ''bob'' (Some read_two) w_unread) =
     [ConsoleLog ''conversationId--->'' (LoggedId (Some ''c1'')),
      DbCall (ConversationFindById ''c1''),
      ConsoleLog ''message ids--->'' (LoggedIds (Some [''not-an-id'', ''m01''])),
      DbCall (MessageUpdateMany [''not-an-id'', ''m01''] ''c1''),
      ToRoom ''conversation:c1'' [2] (MessageSeen ''c1'' [''not-an-id'', ''m01''] ''bob'')]
   \<and> messages (message_read env0 2 ''bob'' (Some read_two) w_unread) = [unread_message\<lparr>seen := True\<rparr>]"
  using message_read_update [where p = read_two and cid = "''c1''"
      and ids = "[''not-an-id'', ''m01'']" and w = w_unread and conv = alice_bob and userId = "''bob''"
      and env = env0 and socket = 2, OF _ _ _ _ _ _ _ refl refl]
  by (simp add: read_two_def w_unread_def w0_def alice_bob_def unread_message_def env0_def members_def mark_seen_def)


section \<open>addMessage\<close>

text \<open>
  C7. \<^verbatim>\<open>addMessage\<close>, when the store accepts both requests, first creates the message
  with the given conversation, sender, receiver and content (unseen), then sets
  \<^verbatim>\<open>lastMessage\<close> of the conversation of that id to the new message's id, and returns the
  message; afterwards that conversation's \<^verbatim>\<open>lastMessage\<close> is the id of the last message
  of the collection.
\<close>

theorem addMessage_persists:
  assumes "db_fault env (MessageCreate cid senderId receiverId body) = None"
    and "db_fault env (ConversationFindByIdAndUpdate cid (gen_id env (next_id w))) = None"
    and "m = \<lparr>msg_id = gen_id env (next_id w), conversationId = cid, sender = senderId,
               receiver = receiverId, content = body, seen = False, createdAt = clock w\<rparr>"
    and "w' = snd (addMessage env cid senderId receiverId body w)"
  shows "fst (addMessage env cid senderId receiverId body w) = Inr m
       \<and> messages w' = messages w @ [m]
       \<and> new_effects w w' =
           [DbCall (MessageCreate cid senderId receiverId body),
            DbCall (ConversationFindByIdAndUpdate cid (msg_id m))]
       \<and> find (\<lambda>c. conv_id c = cid) (conversations w') =
           map_option (\<lambda>c. c\<lparr>lastMessage := Some (msg_id (last (messages w')))\<rparr>)
             (find (\<lambda>c. conv_id c = cid) (conversations w))"
  using assms
  by (simp add: addMessage_def Message_create_def Conversation_findByIdAndUpdate_def
        Let_def find_update_first)

theorem addMessage_persists_witness:
  "fst (addMessage env0 ''c1'' ''alice'' ''bob'' ''hi'' w0) = Inr hi_message
   \<and> messages (snd (addMessage env0 ''c1'' ''alice'' ''bob'' ''hi'' w0)) = [hi_message]
   \<and> find (\<lambda>c. conv_id c = ''c1'')
        (conversations (snd (addMessage env0 ''c1'' ''alice'' ''bob'' ''hi'' w0)))
      = Some (alice_bob\<lparr>lastMessage := Some ''idx''\<rparr>)"
  using addMessage_persists [where env = env0 and cid = "''c1''" and senderId = "''alice''"
      and receiverId = "''bob''" and body = "''hi''" and w = w0 and m = hi_message,
      OF _ _ _ refl]
  by (simp add: env0_def w0_def alice_bob_def hi_message_def)

section \<open>getOrCreateConversation\<close>

text \<open>
  C3 (as amended). Any non-empty sequence of calls of \<^verbatim>\<open>getOrCreateConversation\<close>
  with two users in either order, none rejected by the store, returns one and the same
  conversation id every time. When the two users are different and the conversations of
  the store are well formed (as they are in every state the server reaches from an empty
  store), exactly one conversation then has the two users as its participants: the one
  with that id.
\<close>

theorem getOrCreateConversation_unique:
  assumes "calls \<noteq> []" and "set calls \<subseteq> {(a, b), (b, a)}"
    and "\<forall>q. db_fault env q = None"
  shows "\<exists>c. fst (resolve_all env calls w) = Inr (replicate (length calls) (conv_id c))
           \<and> (a \<noteq> b \<and> conversations_wf w \<longrightarrow>
                conversations_between a b (snd (resolve_all env calls w)) = [c]
                \<and> conversations_wf (snd (resolve_all env calls w)))"
proof -
  let ?M = "\<lambda>c. a \<in> set (participants c) \<and> b \<in> set (participants c)"
  let ?w' = "snd (resolve_all env calls w)"
  from resolve_all_first [OF assms, of w] obtain c w1 where
    c: "fst (resolve_all env calls w) = Inr (replicate (length calls) (conv_id c))"
       "conversations ?w' = conversations w1"
       "w1 = snd (getOrCreateConversation env (fst (hd calls)) (snd (hd calls)) w)"
       "find ?M (conversations w1) = Some c"
    by blast
  have "conversations_between a b ?w' = [c] \<and> conversations_wf ?w'"
    if "a \<noteq> b" and wf: "conversations_wf w"
  proof -
    from getOrCreateConversation_wf [OF wf] c(3) have wf1: "conversations_wf w1" by simp
    with c(2) have wf': "conversations_wf ?w'" by (simp add: conversations_wf_def)
    have "find (\<lambda>c. set (participants c) = {a, b}) (conversations w1) = find ?M (conversations w1)"
    proof (rule find_cong_set)
      fix x assume "x \<in> set (conversations w1)"
      with wf1 have "length (participants x) = 2"
        by (simp add: conversations_wf_def list_all_iff)
      from pair_set [OF this \<open>a \<noteq> b\<close>]
      show "(set (participants x) = {a, b}) = (a \<in> set (participants x) \<and> b \<in> set (participants x))"
        by simp
    qed
    with c(4) wf1 c(2) have "conversations_between a b ?w' = [c]"
      by (simp add: conversations_between_def conversations_wf_def filter_find_distinct)
    with wf' show ?thesis by simp
  qed
  with c(1) show ?thesis by blast
qed

theorem getOrCreateConversation_unique_witness:
  "fst (resolve_all env0 [(''alice'', ''bob''), (''bob'', ''alice''), (''alice'', ''bob'')] w_init)
     = Inr [''id'', ''id'', ''id'']
   \<and> conversations_between ''alice'' ''bob''
       (snd (resolve_all env0 [(''alice'', ''bob''), (''bob'', ''alice''), (''alice'', ''bob'')] w_init))
     = [\<lparr>conv_id = ''id'', participants = [''alice'', ''bob''], lastMessage = None\<rparr>]"
proof -
  have e: "resolve_all env0 [(''alice'', ''bob''), (''bob'', ''alice''), (''alice'', ''bob'')] w_init
     = (Inr [''id'', ''id'', ''id''],
        w_init\<lparr>conversations :=
                  [\<lparr>conv_id = ''id'', participants = [''alice'', ''bob''], lastMessage = None\<rparr>],
                next_id := 1,
                trace := [DbCall (ConversationFindOne [''alice'', ''bob'']),
                          DbCall (ConversationCreate [''alice'', ''bob'']),
                          DbCall (ConversationFindOne [''bob'', ''alice'']),
                          DbCall (ConversationFindOne [''alice'', ''bob''])]\<rparr>)"
    by (simp add: getOrCreateConversation_def Conversation_findOne_def Conversation_create_def
          Let_def log_effect_def env0_def w_init_def)
  have h: "[(''alice'', ''bob''), (''bob'', ''alice''), (''alice'', ''bob'')] \<noteq> []"
    "set [(''alice'', ''bob''), (''bob'', ''alice''), (''alice'', ''bob'')]
       \<subseteq> {(''alice'', ''bob''), (''bob'', ''alice'')}"
    "\<forall>q. db_fault env0 q = None"
    and d: "''alice'' \<noteq> ''bob''" "conversations_wf w_init"
    by (simp_all add: conversations_wf_def w_init_def env0_def)
  from getOrCreateConversation_unique [OF h, of w_init] d obtain c where
    c: "fst (resolve_all env0 [(''alice'', ''bob''), (''bob'', ''alice''), (''alice'', ''bob'')] w_init)
          = Inr (replicate (length [(''alice'', ''bob''), (''bob'', ''alice''), (''alice'', ''bob'')])
                   (conv_id c))"
       "conversations_between ''alice'' ''bob''
          (snd (resolve_all env0 [(''alice'', ''bob''), (''bob'', ''alice''), (''alice'', ''bob'')] w_init))
          = [c]"
    by blast
  from c(2) [unfolded e]
  have "c = \<lparr>conv_id = ''id'', participants = [''alice'', ''bob''], lastMessage = None\<rparr>"
    by (simp add: conversations_between_def w_init_def)
  with c [unfolded e] show ?thesis unfolding e by simp
qed

theorem getOrCreateConversation_self_counterexample:
  "conversations first_contact
     = [\<lparr>conv_id = ''id'', participants = [''alice'', ''bob''], lastMessage = None\<rparr>]
   \<and> fst (resolve_all env0 [(''alice'', ''alice''), (''alice'', ''alice'')] first_contact)
       = Inr [''id'', ''id'']
   \<and> conversations_between ''alice'' ''alice''
       (snd (resolve_all env0 [(''alice'', ''alice''), (''alice'', ''alice'')] first_contact)) = []"
  by (auto simp: first_contact_def getOrCreateConversation_def Conversation_findOne_def
        Conversation_create_def Let_def log_effect_def env0_def w_init_def
        conversations_between_def)

section \<open>The seen flag\<close>

text \<open>
  C8. Over any run of the server every message already stored keeps its place and either
  stays as it is or goes from unseen to seen, so a seen message stays seen; the messages
  that a step adds are unseen; and marking the same ids a second time is accepted exactly
  as the first time was and leaves the messages as the first marking left them.
\<close>

theorem seen_monotonic:
  "messages_evolve (messages w) (messages (run env steps w))
   \<and> (\<forall>i < length (messages w).
        seen (messages w ! i) \<longrightarrow> seen (messages (run env steps w) ! i))
   \<and> list_all unseen (drop (length (messages w)) (messages (server_step env w st)))
   \<and> fst (Message_updateMany env ids cid (snd (Message_updateMany env ids cid w)))
       = fst (Message_updateMany env ids cid w)
   \<and> messages (snd (Message_updateMany env ids cid (snd (Message_updateMany env ids cid w))))
       = messages (snd (Message_updateMany env ids cid w))"
proof -
  have "\<forall>i < length (messages w).
          seen (messages w ! i) \<longrightarrow> seen (messages (run env steps w) ! i)"
    using messages_evolve_run [of w env steps]
    by (auto simp: messages_evolve_def list_all2_conv_all_nth seen_step_def)
  then show ?thesis
    by (simp add: messages_evolve_run new_messages_unseen updateMany_result
          split: option.split)
qed

theorem seen_monotonic_witness:
  "messages (run env0 [Client 2 (MessageRead (Some read_m01)),
                       Client 2 (MessageRead (Some read_m01))] w_unread)
     = [unread_message\<lparr>seen := True\<rparr>]
   \<and> messages_evolve [unread_message] [unread_message\<lparr>seen := True\<rparr>]
   \<and> list_all unseen (messages (server_step env0 w0 (Client 1 (SendMessage (Some hi) False))))"
proof -
  have m: "messages w_unread = [unread_message]" "messages w0 = []"
    by (simp_all add: w_unread_def w0_def)
  have r: "messages (run env0 [Client 2 (MessageRead (Some read_m01)),
                       Client 2 (MessageRead (Some read_m01))] w_unread)
     = [unread_message\<lparr>seen := True\<rparr>]"
    by (simp add: run_def client_emit_def message_read_def Let_def findById_result
          updateMany_result io_to_emit_def log_effect_def falsy_def str_value_def
          read_m01_def w_unread_def w0_def alice_bob_def unread_message_def env0_def
          mark_seen_def)
  from seen_monotonic [of w_unread env0
      "[Client 2 (MessageRead (Some read_m01)), Client 2 (MessageRead (Some read_m01))]"]
    seen_monotonic [of w0 env0 "[]" "Client 1 (SendMessage (Some hi) False)"] m r
  show ?thesis by simp
qed

section \<open>The handshake\<close>

text \<open>
  C4. A handshake without an \<^verbatim>\<open>accessToken\<close> cookie (or with an empty one) is rejected
  with \<^verbatim>\<open>Unauthorized\<close>, one whose token does not verify with \<^verbatim>\<open>Forbidden\<close>. A fresh
  socket whose handshake is rejected gets the connection error and nothing more: whatever
  the sockets do afterwards (short of a new handshake of that socket), it has no session,
  is in no room, is among the recipients of no event, its own events change nothing, and
  the run is the one without them.
\<close>

theorem handshake_rejection:
  "(access_token env cookie_header = [] \<longrightarrow> io_use env cookie_header = Inl ''Unauthorized'')
   \<and> (access_token env cookie_header \<noteq> [] \<and>
        jwt_verify env (access_token env cookie_header) = None \<longrightarrow>
      io_use env cookie_header = Inl ''Forbidden'')
   \<and> (io_use env cookie_header = Inl err \<and> sessions w socket = None \<and>
        socket \<notin> sockets_in_rooms w \<and> (\<forall>h. Connect socket h \<notin> set steps) \<longrightarrow>
      connection env socket cookie_header w = log_effect (ConnectError socket err) w
      \<and> sessions (run env steps (connection env socket cookie_header w)) socket = None
      \<and> socket \<notin> sockets_in_rooms (run env steps (connection env socket cookie_header w))
      \<and> (\<forall>e \<in> set (new_effects w (run env steps (connection env socket cookie_header w))).
            socket \<notin> set (recipients e))
      \<and> run env steps (connection env socket cookie_header w)
          = run env (filter (\<lambda>st. socket_of st \<noteq> socket) steps)
              (connection env socket cookie_header w)
      \<and> (\<forall>ev. client_emit env socket ev (run env steps (connection env socket cookie_header w))
                = run env steps (connection env socket cookie_header w)))"
proof (intro conjI impI)
  assume a: "io_use env cookie_header = Inl err \<and> sessions w socket = None \<and>
        socket \<notin> sockets_in_rooms w \<and> (\<forall>h. Connect socket h \<notin> set steps)"
  let ?w1 = "connection env socket cookie_header w"
  from a show c: "?w1 = log_effect (ConnectError socket err) w"
    by (simp add: connection_def)
  with a have "sessions ?w1 socket = None" "socket \<notin> sockets_in_rooms ?w1"
    by (simp_all add: sockets_in_rooms_def)
  from unconnected_run [OF this, of steps env] a
  obtain es where r: "sessions (run env steps ?w1) socket = None"
    "socket \<notin> sockets_in_rooms (run env steps ?w1)"
    "trace (run env steps ?w1) = trace ?w1 @ es" "\<forall>e \<in> set es. socket \<notin> set (recipients e)"
    "run env steps ?w1 = run env (filter (\<lambda>st. socket_of st \<noteq> socket) steps) ?w1"
    by blast
  from r(1) show "sessions (run env steps ?w1) socket = None" .
  from r(2) show "socket \<notin> sockets_in_rooms (run env steps ?w1)" .
  from r(5) show "run env steps ?w1 = run env (filter (\<lambda>st. socket_of st \<noteq> socket) steps) ?w1" .
  from r(3) c have "new_effects w (run env steps ?w1) = ConnectError socket err # es"
    by (simp add: new_effects_def)
  with r(4) show "\<forall>e \<in> set (new_effects w (run env steps ?w1)). socket \<notin> set (recipients e)"
    by (simp add: recipients_def)
  from r(1) show "\<forall>ev. client_emit env socket ev (run env steps ?w1) = run env steps ?w1"
    by (simp add: client_emit_def)
qed (simp_all add: io_use_result)

theorem handshake_rejection_witness:
  "io_use env0 None = Inl ''Unauthorized''
   \<and> io_use env0 (Some ''expired-token'') = Inl ''Forbidden''
   \<and> connection env0 3 (Some ''expired-token'') w0 = log_effect (ConnectError 3 ''Forbidden'') w0
   \<and> run env0 intruder_steps (connection env0 3 (Some ''expired-token'') w0)
       = run env0 [Client 1 (SendMessage (Some hi) True)]
           (connection env0 3 (Some ''expired-token'') w0)"
proof -
  have t: "access_token env0 None = []" "access_token env0 (Some ''expired-token'') = ''expired-token''"
    "jwt_verify env0 ''expired-token'' = None"
    by (simp_all add: access_token_def env0_def str_value_def)
  have w: "sessions w0 3 = None" "3 \<notin> sockets_in_rooms w0"
    "\<forall>h. Connect 3 h \<notin> set intruder_steps"
    "filter (\<lambda>st. socket_of st \<noteq> 3) intruder_steps = [Client 1 (SendMessage (Some hi) True)]"
    by (simp_all add: w0_def sockets_in_rooms_def intruder_steps_def)
  from handshake_rejection [of env0 None "''Unauthorized''" w0 3 intruder_steps] t
  have u: "io_use env0 None = Inl ''Unauthorized''" by blast
  from handshake_rejection [of env0 "Some ''expired-token''" "''Forbidden''" w0 3 intruder_steps] t
  have f: "io_use env0 (Some ''expired-token'') = Inl ''Forbidden''" by simp
  from handshake_rejection [of env0 "Some ''expired-token''" "''Forbidden''" w0 3 intruder_steps]
    f w(1-3)
  have "connection env0 3 (Some ''expired-token'') w0 = log_effect (ConnectError 3 ''Forbidden'') w0
      \<and> run env0 intruder_steps (connection env0 3 (Some ''expired-token'') w0)
          = run env0 (filter (\<lambda>st. socket_of st \<noteq> 3) intruder_steps)
              (connection env0 3 (Some ''expired-token'') w0)"
    by blast
  with u f show ?thesis unfolding w(4) by blast
qed

end
